theory Spec2Isabelle
  imports Complex_Main
begin

section \<open>The world the Gateway Supervisor runs in\<close>

text \<open>
  The supervisor (\<^verbatim>\<open>GatewayProcessManager\<close>, \<^verbatim>\<open>WebhookPollerService\<close> and the
  \<^verbatim>\<open>setConnectionMode\<close> procedure) is effectful TypeScript: it reads and writes a pid
  file, signals processes, spawns a child, calls the Telegram Bot API and appends rows to
  database tables. Every effect is made explicit here: an operation takes the world and
  returns an outcome (a value or a thrown exception) together with the new world.

  Time is the millisecond clock read by \<^verbatim>\<open>Date.now()\<close>; it advances only where the
  source awaits a \<^verbatim>\<open>setTimeout\<close>. The database may be without a handle and any of
  its queries may fail; the file system may refuse to write the pid file. These failures,
  like those of signals, of \<^verbatim>\<open>spawn\<close> and of the Bot API, are branches of the model.
\<close>

subsection \<open>Exceptions and outcomes\<close>

datatype errcode = ESRCH | EPERM | ENOENT | ENOSPC

datatype exn = SysError errcode | Error string

datatype 'a outcome = Ret 'a | Throw exn

fun code :: "exn \<Rightarrow> errcode option" where
  "code (SysError c) = Some c"
| "code (Error m) = None"

fun exn_text :: "exn \<Rightarrow> string" where
  "exn_text (SysError ESRCH) = ''Error: kill ESRCH''"
| "exn_text (SysError EPERM) = ''Error: kill EPERM''"
| "exn_text (SysError ENOENT) = ''Error: ENOENT: no such file or directory''"
| "exn_text (SysError ENOSPC) = ''Error: ENOSPC: no space left on device''"
| "exn_text (Error m) = ''Error: '' @ m"

subsection \<open>Processes\<close>

datatype signal = SIG0 | SIGTERM | SIGKILL

text \<open>
  A process of the operating system's table, as far as the supervisor can observe it:
  whether \<^verbatim>\<open>pgrep -f "openclaw.*gateway"\<close> lists it, whether this user may signal it
  (otherwise \<^verbatim>\<open>process.kill\<close> throws EPERM), how many milliseconds it needs to exit
  after a SIGTERM (\<open>None\<close>: it ignores SIGTERM), the time at which it exits (\<open>None\<close>: not
  scheduled to exit), the port it listens on and since when, and what
  \<^verbatim>\<open>ps -o etimes,pcpu,rss\<close> prints for it (each field as the number it parses to,
  \<open>None\<close> for NaN; \<open>None\<close> as a whole when \<^verbatim>\<open>ps\<close> fails).
\<close>

record proc =
  cmd_matches :: bool
  may_signal :: bool
  term_delay :: "nat option"
  exit_at :: "int option"
  listening :: "(int \<times> int) option"
  ps_out :: "(int option \<times> rat option \<times> int option) option"

definition alive_at :: "int \<Rightarrow> proc \<Rightarrow> bool" where
  "alive_at t pr = (case exit_at pr of None \<Rightarrow> True | Some e \<Rightarrow> t < e)"

subsection \<open>The provider (Telegram Bot API)\<close>

record WebhookInfo =
  url :: string
  has_custom_certificate :: bool
  pending_update_count :: int
  last_error_date :: "int option"
  last_error_message :: "string option"

text \<open>
  What one \<^verbatim>\<open>fetch\<close> of the Bot API does: the call throws (network failure), the
  response is not ok (with its status text), the body says \<^verbatim>\<open>ok: false\<close> (with an
  optional description), or the call succeeds.
\<close>

datatype api_outcome = NetworkError | HttpError string | ApiError "string option" | ApiOk

subsection \<open>History rows\<close>

datatype action = ActNone | ActRestart | ActAlert

text \<open>
  A row of \<^verbatim>\<open>webhook_status_logs\<close>. The columns \<^verbatim>\<open>isActive\<close>,
  \<^verbatim>\<open>pendingUpdateCount\<close>, \<^verbatim>\<open>lastErrorDate\<close> and \<^verbatim>\<open>lastErrorMessage\<close> carry the
  prefix \<open>log_\<close> here, since the result of \<^verbatim>\<open>checkWebhookStatus\<close> has fields of the
  same names.
\<close>

record WebhookStatusLog =
  checkTimestamp :: int
  webhookUrl :: "string option"
  log_isActive :: bool
  log_pendingUpdateCount :: int
  log_lastErrorDate :: "int option"
  log_lastErrorMessage :: "string option"
  responseTimeMs :: int
  actionTaken :: action

datatype trigger = Manual | Webhook_check | Health_check | Scheduled

text \<open>
  A row of \<^verbatim>\<open>gateway_restart_logs\<close>. \<open>createdAt\<close> is the column
  \<^verbatim>\<open>timestamp NOT NULL DEFAULT (now())\<close>, which the database fills with the time of
  the insert in whole seconds; it is held here as \<^verbatim>\<open>UNIX_TIMESTAMP(createdAt)\<close>.
  The clock of the database is taken to be the clock of the supervisor.
\<close>

record GatewayRestartLog =
  triggerType :: trigger
  triggerUserId :: "string option"
  reason :: string
  log_oldPid :: "int option"
  log_newPid :: "int option"
  log_success :: bool
  errorMessage :: "string option"
  durationMs :: int
  createdAt :: int

subsection \<open>The world\<close>

datatype pid_file = NoFile | Content "int option"

text \<open>
  The pid file is absent, or holds a text of which only \<^verbatim>\<open>parseInt(text.trim(), 10)\<close>
  is ever used: \<open>Content (Some n)\<close> for a text that parses to \<open>n\<close>, \<open>Content None\<close>
  for one that parses to NaN.

  \<open>spawn_script\<close> lists what the next calls of \<^verbatim>\<open>spawn\<close> will produce: a child with
  a pid, or no pid (\<open>None\<close>, also when the list is used up). \<open>api_script\<close> lists what
  the next calls of the Bot API will do (a network failure when used up).

  \<open>disk_full\<close> says whether the file system refuses to write the pid file
  (\<^verbatim>\<open>fs.writeFile\<close> in \<^verbatim>\<open>savePid\<close> throws ENOSPC); the log file, which \<^verbatim>\<open>start\<close>
  opens only after the pid file is written, is taken to open. \<open>db_handle\<close> says whether \<^verbatim>\<open>getDb()\<close> returns
  a handle; \<open>db_script\<close> lists what the next queries of the database will do (they succeed
  when the list is used up).

  \<open>calls\<close> is not program state: it records, in order, which operations were entered,
  so that "restart is never invoked" can be stated.
\<close>

datatype db_outcome = DbOk | DbError

text \<open>
  Modelled from the spec: \<^verbatim>\<open>notifyOwner\<close> lives in \<^verbatim>\<open>_core/notification\<close>, which is
  not part of the sources at hand. The spec has it as \<^verbatim>\<open>notify(title, body)\<close>,
  fire-and-forget, failures ignored; so a notification is put into an outbox and the
  call never throws. The one notification the supervisor sends has a fixed title and a
  body that mentions the number of restart attempts; the number stands for it here.
\<close>

datatype notification = WebhookKeepsFailing nat

datatype call = CallStart | CallStop | CallRestart | CallApplyWebhook | CallResetWebhook
  | CallDeleteWebhook | CallNotify

record world =
  now :: int
  pidFile :: pid_file
  disk_full :: bool
  procs :: "(int \<times> proc) list"
  spawn_script :: "(int \<times> proc) option list"
  db_handle :: bool
  db_script :: "db_outcome list"
  settings :: "string \<Rightarrow> string option"
  bot_token :: "string option"
  hook :: WebhookInfo
  api_script :: "api_outcome list"
  webhook_logs :: "WebhookStatusLog list"
  restart_logs :: "GatewayRestartLog list"
  alerts :: "notification list"
  calls :: "call list"

type_synonym 'a io = "world \<Rightarrow> 'a outcome \<times> world"

definition io_return :: "'a \<Rightarrow> 'a io" where
  "io_return x w = (Ret x, w)"

definition io_throw :: "exn \<Rightarrow> 'a io" where
  "io_throw e w = (Throw e, w)"

definition io_bind :: "'a io \<Rightarrow> ('a \<Rightarrow> 'b io) \<Rightarrow> 'b io" where
  "io_bind m f w = (case m w of (Ret x, w') \<Rightarrow> f x w' | (Throw e, w') \<Rightarrow> (Throw e, w'))"

definition try_catch :: "'a io \<Rightarrow> (exn \<Rightarrow> 'a io) \<Rightarrow> 'a io" where
  "try_catch m h w = (case m w of (Ret x, w') \<Rightarrow> (Ret x, w') | (Throw e, w') \<Rightarrow> h e w')"

definition entered :: "call \<Rightarrow> unit io" where
  "entered c w = (Ret (), w\<lparr>calls := calls w @ [c]\<rparr>)"

definition date_now :: "int io" where
  "date_now w = (Ret (now w), w)"

definition sleep :: "int \<Rightarrow> unit io" where
  "sleep ms w = (Ret (), w\<lparr>now := now w + ms\<rparr>)"

section \<open>GatewayProcessManager\<close>

definition DEFAULT_PORT :: int where "DEFAULT_PORT = 18789"
definition STARTUP_TIMEOUT :: int where "STARTUP_TIMEOUT = 30000"
definition SHUTDOWN_TIMEOUT :: int where "SHUTDOWN_TIMEOUT = 10000"

subsection \<open>Operating-system facilities\<close>

definition find_proc :: "world \<Rightarrow> int \<Rightarrow> proc option" where
  "find_proc w p =
     (case map_of (procs w) p of
        None \<Rightarrow> None
      | Some pr \<Rightarrow> if alive_at (now w) pr then Some pr else None)"

definition deliver :: "signal \<Rightarrow> int \<Rightarrow> proc \<Rightarrow> proc" where
  "deliver sig t pr =
     (case sig of
        SIG0 \<Rightarrow> pr
      | SIGKILL \<Rightarrow> pr\<lparr>exit_at := Some t\<rparr>
      | SIGTERM \<Rightarrow>
          (case term_delay pr of
             None \<Rightarrow> pr
           | Some d \<Rightarrow> pr\<lparr>exit_at := Some (t + int d)\<rparr>))"

text \<open>
  \<^verbatim>\<open>process.kill(pid, signal)\<close>: ESRCH when no live process has the pid, EPERM when
  the process may not be signalled; otherwise the signal is delivered (signal 0 only
  probes).
\<close>

definition kill :: "int \<Rightarrow> signal \<Rightarrow> unit io" where
  "kill p sig w =
     (case find_proc w p of
        None \<Rightarrow> (Throw (SysError ESRCH), w)
      | Some pr \<Rightarrow>
          if \<not> may_signal pr then (Throw (SysError EPERM), w)
          else if sig = SIG0 then (Ret (), w)
          else (Ret (),
                w\<lparr>procs := map (\<lambda>(q, r). if q = p \<and> alive_at (now w) r
                                          then (q, deliver sig (now w) r) else (q, r)) (procs w)\<rparr>))"

text \<open>\<^verbatim>\<open>execAsync('pgrep -f "openclaw.*gateway"')\<close>: the pids of the live matching
  processes in the order printed; the command fails when there is none.\<close>

definition pgrep :: "int list io" where
  "pgrep w =
     (let pids = map fst (filter (\<lambda>(q, r). cmd_matches r \<and> alive_at (now w) r) (procs w))
      in if pids = [] then (Throw (Error ''Command failed: pgrep''), w) else (Ret pids, w))"

definition readPidFile :: "int option io" where
  "readPidFile w =
     (case pidFile w of
        NoFile \<Rightarrow> (Throw (SysError ENOENT), w)
      | Content c \<Rightarrow> (Ret c, w))"

definition unlinkPidFile :: "unit io" where
  "unlinkPidFile w =
     (case pidFile w of
        NoFile \<Rightarrow> (Throw (SysError ENOENT), w)
      | Content c \<Rightarrow> (Ret (), w\<lparr>pidFile := NoFile\<rparr>))"

text \<open>\<^verbatim>\<open>spawn('pnpm', ['openclaw', 'gateway'], ...)\<close>: the pid of the child, if any.\<close>

definition spawn :: "int option io" where
  "spawn w =
     (case spawn_script w of
        [] \<Rightarrow> (Ret None, w)
      | None # rest \<Rightarrow> (Ret None, w\<lparr>spawn_script := rest\<rparr>)
      | Some (p, pr) # rest \<Rightarrow>
          (Ret (Some p),
           w\<lparr>spawn_script := rest, procs := filter (\<lambda>(q, r). q \<noteq> p) (procs w) @ [(p, pr)]\<rparr>))"

subsection \<open>Private helpers\<close>

definition savePid :: "int \<Rightarrow> unit io" where
  "savePid p w =
     (if disk_full w then (Throw (SysError ENOSPC), w)
      else (Ret (), w\<lparr>pidFile := Content (Some p)\<rparr>))"

definition clearPidFile :: "unit io" where
  "clearPidFile = try_catch unlinkPidFile (\<lambda>error. io_return ())"

definition getCurrentPid :: "int option io" where
  "getCurrentPid =
     try_catch readPidFile
       (\<lambda>error.
          try_catch
            (io_bind pgrep (\<lambda>pids.
               if length pids > 0 then
                 io_bind (savePid (last pids)) (\<lambda>_. io_return (Some (last pids)))
               else io_return None))
            (\<lambda>error. io_return None))"

definition isProcessRunning :: "int \<Rightarrow> bool io" where
  "isProcessRunning p =
     try_catch (io_bind (kill p SIG0) (\<lambda>_. io_return True)) (\<lambda>error. io_return False)"

text \<open>\<^verbatim>\<open>x || 0\<close> on a parsed number: NaN and 0 give 0.\<close>

definition or_zero :: "'a::zero option \<Rightarrow> 'a" where
  "or_zero x = (case x of None \<Rightarrow> 0 | Some v \<Rightarrow> v)"

definition execPs :: "int \<Rightarrow> (int option \<times> rat option \<times> int option) io" where
  "execPs p w =
     (case find_proc w p of
        None \<Rightarrow> (Throw (Error ''Command failed: ps''), w)
      | Some pr \<Rightarrow>
          (case ps_out pr of
             None \<Rightarrow> (Throw (Error ''Command failed: ps''), w)
           | Some out \<Rightarrow> (Ret out, w)))"

definition getProcessMetrics :: "int \<Rightarrow> (int \<times> rat \<times> rat) io" where
  "getProcessMetrics p =
     try_catch
       (io_bind (execPs p) (\<lambda>(uptime, cpu, rss).
          io_return (or_zero uptime, or_zero cpu,
                     or_zero (map_option (\<lambda>k. rat_of_int k / 1024) rss))))
       (\<lambda>error. io_return (0, 0, 0))"

text \<open>\<^verbatim>\<open>lsof -i :port -t\<close> prints something exactly when a live process listens.\<close>

definition isPortListening :: "int \<Rightarrow> bool io" where
  "isPortListening port w =
     (Ret (list_ex (\<lambda>(q, r). alive_at (now w) r \<and>
                     (case listening r of None \<Rightarrow> False
                      | Some (pt, since) \<Rightarrow> pt = port \<and> since \<le> now w)) (procs w)), w)"

subsection \<open>Waiting for a process to start or to stop\<close>

text \<open>
  The two polling loops. Each iteration that does not return awaits a timer, so the clock
  advances and the loop ends when the timeout has passed.
\<close>

lemma isProcessRunning_same_world: "isProcessRunning p w = (r, w') \<Longrightarrow> w' = w"
  by (auto simp: isProcessRunning_def try_catch_def io_bind_def io_return_def kill_def
           split: option.splits if_splits prod.splits outcome.splits)

function waitForShutdown_loop :: "int \<Rightarrow> int \<Rightarrow> int \<Rightarrow> bool io" where
  "waitForShutdown_loop p timeout startTime w =
     (if now w - startTime < timeout then
        (case isProcessRunning p w of
           (Throw e, w1) \<Rightarrow> (Throw e, w1)
         | (Ret running, w1) \<Rightarrow>
             if \<not> running then (Ret True, w1)
             else (case sleep 500 w1 of
                     (Throw e, w2) \<Rightarrow> (Throw e, w2)
                   | (Ret _, w2) \<Rightarrow> waitForShutdown_loop p timeout startTime w2))
      else (Ret False, w))"
  by pat_completeness auto
termination
  by (relation "measure (\<lambda>(p, timeout, startTime, w). nat (startTime + timeout - now w))")
     (auto simp: sleep_def dest!: isProcessRunning_same_world [OF sym])

declare waitForShutdown_loop.simps [simp del]

definition waitForShutdown :: "int \<Rightarrow> int \<Rightarrow> bool io" where
  "waitForShutdown p timeout = io_bind date_now (\<lambda>startTime. waitForShutdown_loop p timeout startTime)"

function waitForStartup_loop :: "int \<Rightarrow> int \<Rightarrow> bool io" where
  "waitForStartup_loop p startTime w =
     (if now w - startTime < STARTUP_TIMEOUT then
        (case isProcessRunning p w of
           (Throw e, w1) \<Rightarrow> (Throw e, w1)
         | (Ret running, w1) \<Rightarrow>
             if \<not> running then (Ret False, w1)
             else (case isPortListening DEFAULT_PORT w1 of
                     (Throw e, w2) \<Rightarrow> (Throw e, w2)
                   | (Ret listens, w2) \<Rightarrow>
                       if listens then (Ret True, w2)
                       else (case sleep 1000 w2 of
                               (Throw e, w3) \<Rightarrow> (Throw e, w3)
                             | (Ret _, w3) \<Rightarrow> waitForStartup_loop p startTime w3)))
      else (Ret False, w))"
  by pat_completeness auto
termination
  by (relation "measure (\<lambda>(p, startTime, w). nat (startTime + STARTUP_TIMEOUT - now w))")
     (auto simp: sleep_def isPortListening_def dest!: isProcessRunning_same_world [OF sym])

declare waitForStartup_loop.simps [simp del]

definition waitForStartup :: "int \<Rightarrow> bool io" where
  "waitForStartup p = io_bind date_now (\<lambda>startTime. waitForStartup_loop p startTime)"

subsection \<open>stop, start, restart, healthCheck, getStatus\<close>

record op_result =
  success :: bool
  message :: string

text \<open>The result of \<^verbatim>\<open>start\<close> has a field \<^verbatim>\<open>pid\<close>; it is \<open>started_pid\<close> here,
  \<open>pid\<close> being the field of \<open>GatewayStatus\<close>.\<close>

record start_result = op_result +
  started_pid :: "int option"

record RestartResult = op_result +
  oldPid :: "int option"
  newPid :: "int option"
  duration :: int
  error :: "string option"

datatype run_state = Running | Stopped | Failed

text \<open>\<open>status\<close> is \<^verbatim>\<open>'running' | 'stopped' | 'error'\<close>, written \<open>Running\<close>,
  \<open>Stopped\<close> and \<open>Failed\<close>.\<close>

record GatewayStatus =
  status :: run_state
  pid :: "int option"
  port :: int
  uptime :: int
  cpuUsage :: rat
  memoryUsage :: rat
  lastRestart :: "int option"

text \<open>\<^verbatim>\<open>!pid\<close> on \<^verbatim>\<open>number | null\<close>: null and 0 are falsy.\<close>

definition falsy :: "int option \<Rightarrow> bool" where
  "falsy x = (case x of None \<Rightarrow> True | Some n \<Rightarrow> n = 0)"

fun show_nat :: "nat \<Rightarrow> string" where
  "show_nat n = (if n < 10 then [''0123456789'' ! n]
                 else show_nat (n div 10) @ [''0123456789'' ! (n mod 10)])"

definition show_int :: "int \<Rightarrow> string" where
  "show_int i = (if i < 0 then ''-'' @ show_nat (nat (- i)) else show_nat (nat i))"

definition stop :: "op_result io" where
  "stop =
     io_bind (entered CallStop) (\<lambda>_.
     try_catch
       (io_bind getCurrentPid (\<lambda>pid.
          case pid of
            None \<Rightarrow> io_return \<lparr>success = True, message = ''Gateway is not running''\<rparr>
          | Some p \<Rightarrow>
              if p = 0 then io_return \<lparr>success = True, message = ''Gateway is not running''\<rparr>
              else
                io_bind
                  (try_catch
                     (io_bind (kill p SIGTERM) (\<lambda>_. io_return False))
                     (\<lambda>error.
                        if code error = Some ESRCH then
                          io_bind clearPidFile (\<lambda>_. io_return True)
                        else io_throw error))
                  (\<lambda>absent.
                     if absent then
                       io_return \<lparr>success = True, message = ''Gateway process was not running''\<rparr>
                     else
                       io_bind (waitForShutdown p SHUTDOWN_TIMEOUT) (\<lambda>stopped.
                       io_bind
                         (if \<not> stopped then
                            io_bind
                              (try_catch (kill p SIGKILL)
                                 (\<lambda>error. if code error \<noteq> Some ESRCH then io_throw error
                                           else io_return ()))
                              (\<lambda>_. sleep 1000)
                          else io_return ())
                         (\<lambda>_.
                       io_bind clearPidFile (\<lambda>_.
                       io_return \<lparr>success = True, message = ''Gateway stopped successfully''\<rparr>))))))
       (\<lambda>error.
          io_return \<lparr>success = False, message = ''Failed to stop Gateway: '' @ exn_text error\<rparr>))"

definition start :: "start_result io" where
  "start =
     io_bind (entered CallStart) (\<lambda>_.
     try_catch
       (io_bind getCurrentPid (\<lambda>currentPid.
        io_bind (case currentPid of
                   None \<Rightarrow> io_return False
                 | Some p \<Rightarrow> if p = 0 then io_return False else isProcessRunning p) (\<lambda>running.
        if running then
          io_return \<lparr>success = False,
                     message = ''Gateway is already running with PID '' @ show_int (or_zero currentPid),
                     started_pid = currentPid\<rparr>
        else
          io_bind spawn (\<lambda>childPid.
          if falsy childPid then
            io_return \<lparr>success = False, message = ''Failed to spawn Gateway process'',
                       started_pid = None\<rparr>
          else
            io_bind (savePid (or_zero childPid)) (\<lambda>_.
            io_bind (waitForStartup (or_zero childPid)) (\<lambda>started.
            if \<not> started then
              io_bind stop (\<lambda>_.
              io_return \<lparr>success = False,
                         message = ''Gateway failed to start within timeout period'',
                         started_pid = None\<rparr>)
            else
              io_return \<lparr>success = True,
                         message = ''Gateway started successfully with PID '' @ show_int (or_zero childPid),
                         started_pid = childPid\<rparr>))))))
       (\<lambda>error.
          io_return \<lparr>success = False, message = ''Failed to start Gateway: '' @ exn_text error,
                     started_pid = None\<rparr>))"

definition healthCheck :: "bool io" where
  "healthCheck =
     try_catch
       (io_bind getCurrentPid (\<lambda>pid.
        io_bind (case pid of
                   None \<Rightarrow> io_return False
                 | Some p \<Rightarrow> if p = 0 then io_return False else isProcessRunning p) (\<lambda>running.
        if \<not> running then io_return False
        else
          io_bind (isPortListening DEFAULT_PORT) (\<lambda>portListening.
          if \<not> portListening then io_return False else io_return True))))
       (\<lambda>error. io_return False)"

definition restart :: "string option \<Rightarrow> RestartResult io" where
  "restart reason_arg =
     io_bind (entered CallRestart) (\<lambda>_.
     io_bind date_now (\<lambda>startTime.
     try_catch
       (io_bind getCurrentPid (\<lambda>oldPid'.
        io_bind stop (\<lambda>stopResult.
        if \<not> success stopResult then
          io_bind date_now (\<lambda>t.
          io_return \<lparr>success = False, message = ''Failed to stop old process'',
                     oldPid = oldPid', newPid = None, duration = t - startTime,
                     error = Some (message stopResult)\<rparr>)
        else
          io_bind (sleep 2000) (\<lambda>_.
          io_bind start (\<lambda>startResult.
          io_bind date_now (\<lambda>t.
          if \<not> success startResult then
            io_return \<lparr>success = False, message = ''Failed to start new process'',
                       oldPid = oldPid', newPid = None, duration = t - startTime,
                       error = Some (message startResult)\<rparr>
          else
            io_bind (sleep 3000) (\<lambda>_.
            io_bind healthCheck (\<lambda>healthy.
            if \<not> healthy then
              io_return \<lparr>success = False,
                         message = ''New process started but health check failed'',
                         oldPid = oldPid', newPid = started_pid startResult,
                         duration = t - startTime, error = None\<rparr>
            else
              io_return \<lparr>success = True,
                         message = ''Gateway restarted successfully in '' @ show_int (t - startTime) @ ''ms'',
                         oldPid = oldPid', newPid = started_pid startResult,
                         duration = t - startTime, error = None\<rparr>))))))))
       (\<lambda>err.
          io_bind date_now (\<lambda>t.
          io_return \<lparr>success = False, message = ''Failed to restart Gateway'',
                     oldPid = None, newPid = None, duration = t - startTime,
                     error = Some (exn_text err)\<rparr>))))"

definition not_running :: "run_state \<Rightarrow> GatewayStatus" where
  "not_running s = \<lparr>status = s, pid = None, port = DEFAULT_PORT, uptime = 0, cpuUsage = 0,
                     memoryUsage = 0, lastRestart = None\<rparr>"

definition getStatus :: "GatewayStatus io" where
  "getStatus =
     try_catch
       (io_bind getCurrentPid (\<lambda>pid'.
        if falsy pid' then io_return (not_running Stopped)
        else
          io_bind (isProcessRunning (or_zero pid')) (\<lambda>isRunning.
          if \<not> isRunning then
            io_bind clearPidFile (\<lambda>_. io_return (not_running Stopped))
          else
            io_bind (getProcessMetrics (or_zero pid')) (\<lambda>(up, cpu, mem).
            io_return \<lparr>status = Running, pid = pid', port = DEFAULT_PORT, uptime = up,
                       cpuUsage = cpu, memoryUsage = mem, lastRestart = None\<rparr>))))
       (\<lambda>error. io_return (not_running Failed))"

section \<open>JavaScript idioms\<close>

text \<open>\<^verbatim>\<open>!s\<close> and \<^verbatim>\<open>s || d\<close> on \<^verbatim>\<open>string | null\<close>: null and the empty string are
  falsy. \<^verbatim>\<open>n || null\<close> on an optional number: undefined and 0 become null.\<close>

definition truthy :: "string option \<Rightarrow> bool" where
  "truthy s = (case s of None \<Rightarrow> False | Some t \<Rightarrow> t \<noteq> [])"

definition str_or_null :: "string option \<Rightarrow> string option" where
  "str_or_null s = (if truthy s then s else None)"

definition num_or_null :: "int option \<Rightarrow> int option" where
  "num_or_null x = (if falsy x then None else x)"

definition str_or :: "string option \<Rightarrow> string \<Rightarrow> string" where
  "str_or s d = (case s of None \<Rightarrow> d | Some t \<Rightarrow> if t = [] then d else t)"

text \<open>
  \<^verbatim>\<open>parseInt(s, 10)\<close>: leading white space is skipped, a sign is read, then the
  longest run of decimal digits; NaN (\<open>None\<close>) when there is no digit.
\<close>

definition is_space :: "char \<Rightarrow> bool" where
  "is_space c = (c \<in> set [CHR '' '', CHR 0x09, CHR 0x0A, CHR 0x0B, CHR 0x0C, CHR 0x0D])"

definition is_digit :: "char \<Rightarrow> bool" where
  "is_digit c = (c \<in> set ''0123456789'')"

definition digit_val :: "char \<Rightarrow> nat" where
  "digit_val c = (of_char c :: nat) - 48"

definition parseInt :: "string \<Rightarrow> int option" where
  "parseInt s =
     (let t = dropWhile is_space s;
          neg = (case t of [] \<Rightarrow> False | c # r \<Rightarrow> c = CHR ''-'');
          u = (case t of [] \<Rightarrow> [] | c # r \<Rightarrow> if c = CHR ''-'' \<or> c = CHR ''+'' then r else t);
          ds = takeWhile is_digit u;
          n = int (foldl (\<lambda>a c. 10 * a + digit_val c) 0 ds)
      in if ds = [] then None else Some (if neg then - n else n))"

text \<open>\<^verbatim>\<open>recentAttempts >= maxAttempts\<close>: every comparison with NaN is false.\<close>

definition ge_num :: "nat \<Rightarrow> int option \<Rightarrow> bool" where
  "ge_num a b = (case b of None \<Rightarrow> False | Some m \<Rightarrow> int a \<ge> m)"

section \<open>Settings and history (db.ts)\<close>

text \<open>
  Every function of \<^verbatim>\<open>db.ts\<close> first asks for the handle and gives up when there is
  none; each of its queries may throw, which the function catches (and answers with a
  default) or rethrows.
\<close>

definition getDb :: "bool io" where
  "getDb w = (Ret (db_handle w), w)"

definition db_query :: "unit io" where
  "db_query w =
     (case db_script w of
        [] \<Rightarrow> (Ret (), w)
      | DbOk # rest \<Rightarrow> (Ret (), w\<lparr>db_script := rest\<rparr>)
      | DbError # rest \<Rightarrow> (Throw (Error ''query failed''), w\<lparr>db_script := rest\<rparr>))"

definition select_setting :: "string \<Rightarrow> string option io" where
  "select_setting key = io_bind db_query (\<lambda>_. (\<lambda>w. (Ret (settings w key), w)))"

definition write_setting :: "string \<Rightarrow> string \<Rightarrow> unit io" where
  "write_setting key v =
     io_bind db_query (\<lambda>_. (\<lambda>w. (Ret (), w\<lparr>settings := (settings w)(key \<mapsto> v)\<rparr>)))"

text \<open>\<^verbatim>\<open>defaultValue || null\<close> is \<open>str_or_null defaultValue\<close>.\<close>

definition getGatewaySetting :: "string \<Rightarrow> string option \<Rightarrow> string option io" where
  "getGatewaySetting key defaultValue =
     io_bind getDb (\<lambda>db.
     if \<not> db then io_return (str_or_null defaultValue)
     else
       try_catch
         (io_bind (select_setting key) (\<lambda>results.
          case results of
            Some v \<Rightarrow> io_return (Some v)
          | None \<Rightarrow>
              (case defaultValue of
                 Some d \<Rightarrow> io_bind (write_setting key d) (\<lambda>_. io_return (Some d))
               | None \<Rightarrow> io_return None)))
         (\<lambda>error. io_return (str_or_null defaultValue)))"

definition setGatewaySetting :: "string \<Rightarrow> string \<Rightarrow> unit io" where
  "setGatewaySetting key v =
     io_bind getDb (\<lambda>db.
     if \<not> db then io_return ()
     else
       try_catch
         (io_bind (select_setting key) (\<lambda>existing. write_setting key v))
         (\<lambda>error. io_throw error))"

definition insertWebhookStatusLog :: "WebhookStatusLog \<Rightarrow> unit io" where
  "insertWebhookStatusLog row =
     io_bind getDb (\<lambda>db.
     if \<not> db then io_return ()
     else
       try_catch
         (io_bind db_query (\<lambda>_. (\<lambda>w. (Ret (), w\<lparr>webhook_logs := webhook_logs w @ [row]\<rparr>))))
         (\<lambda>error. io_throw error))"

text \<open>The caller gives every column but \<open>createdAt\<close>, which the database fills in.\<close>

definition insertGatewayRestartLog :: "(int \<Rightarrow> GatewayRestartLog) \<Rightarrow> unit io" where
  "insertGatewayRestartLog row =
     io_bind getDb (\<lambda>db.
     if \<not> db then io_return ()
     else
       try_catch
         (io_bind db_query (\<lambda>_.
            (\<lambda>w. (Ret (), w\<lparr>restart_logs := restart_logs w @ [row (now w div 1000)]\<rparr>))))
         (\<lambda>error. io_throw error))"

text \<open>The rows with \<^verbatim>\<open>UNIX_TIMESTAMP(createdAt) * 1000 >= cutoffTime\<close> are counted.\<close>

definition getRecentRestartAttempts :: "int \<Rightarrow> nat io" where
  "getRecentRestartAttempts windowMinutes =
     io_bind getDb (\<lambda>db.
     if \<not> db then io_return 0
     else
       try_catch
         (io_bind date_now (\<lambda>t.
          let cutoffTime = t - windowMinutes * 60 * 1000 in
          io_bind db_query (\<lambda>_.
            (\<lambda>w. (Ret (length (filter (\<lambda>r. createdAt r * 1000 \<ge> cutoffTime) (restart_logs w))), w)))))
         (\<lambda>error. io_return 0))"

text \<open>\<open>bot_token\<close> is the token that the stored channel configuration yields.\<close>

definition getTelegramBotToken :: "string option io" where
  "getTelegramBotToken =
     io_bind getDb (\<lambda>db.
     if \<not> db then io_return None
     else
       try_catch
         (io_bind db_query (\<lambda>_. (\<lambda>w. (Ret (str_or_null (bot_token w)), w))))
         (\<lambda>error. io_return None))"

text \<open>Modelled from the spec: \<^verbatim>\<open>notifyOwner\<close> puts the notification into the outbox
  and returns; it never throws.\<close>

definition notifyOwner :: "notification \<Rightarrow> unit io" where
  "notifyOwner n =
     io_bind (entered CallNotify) (\<lambda>_. (\<lambda>w. (Ret (), w\<lparr>alerts := alerts w @ [n]\<rparr>)))"

section \<open>WebhookPollerService\<close>

subsection \<open>The Bot API\<close>

text \<open>
  A response: not ok with its status text, or a body with its \<^verbatim>\<open>ok\<close> flag, its
  description and its result. A successful call applies its effect to the provider's
  subscription; a failed one leaves the subscription as it is.
\<close>

datatype response = NotOk string | Body bool "string option" WebhookInfo

definition fetch :: "(WebhookInfo \<Rightarrow> WebhookInfo) \<Rightarrow> response io" where
  "fetch effect w =
     (case api_script w of
        [] \<Rightarrow> (Throw (Error ''fetch failed''), w)
      | NetworkError # rest \<Rightarrow> (Throw (Error ''fetch failed''), w\<lparr>api_script := rest\<rparr>)
      | HttpError statusText # rest \<Rightarrow> (Ret (NotOk statusText), w\<lparr>api_script := rest\<rparr>)
      | ApiError description # rest \<Rightarrow>
          (Ret (Body False description (hook w)), w\<lparr>api_script := rest\<rparr>)
      | ApiOk # rest \<Rightarrow>
          (Ret (Body True None (effect (hook w))),
           w\<lparr>api_script := rest, hook := effect (hook w)\<rparr>))"

definition fetch_getWebhookInfo :: "response io" where
  "fetch_getWebhookInfo = fetch (\<lambda>h. h)"

definition fetch_setWebhook :: "string \<Rightarrow> response io" where
  "fetch_setWebhook u = fetch (\<lambda>h. h\<lparr>url := u\<rparr>)"


definition getBotToken :: "string option io" where
  "getBotToken =
     try_catch
       (io_bind getTelegramBotToken (\<lambda>botToken.
          if \<not> truthy botToken then io_return None else io_return botToken))
       (\<lambda>error. io_return None)"

subsection \<open>checkWebhookStatus\<close>

text \<open>The result of \<^verbatim>\<open>checkWebhookStatus\<close>; its field \<^verbatim>\<open>url\<close> is \<open>status_url\<close> here.\<close>

record webhook_status =
  isActive :: bool
  status_url :: "string option"
  pendingUpdateCount :: int
  lastErrorDate :: "int option"
  lastErrorMessage :: "string option"

definition checkWebhookStatus :: "webhook_status io" where
  "checkWebhookStatus =
     try_catch
       (io_bind getBotToken (\<lambda>botToken.
        if \<not> truthy botToken then
          io_return \<lparr>isActive = False, status_url = None, pendingUpdateCount = 0,
                     lastErrorDate = None, lastErrorMessage = Some ''Bot token not configured''\<rparr>
        else
          io_bind fetch_getWebhookInfo (\<lambda>response.
          case response of
            NotOk statusText \<Rightarrow> io_throw (Error (''Telegram API error: '' @ statusText))
          | Body ok description info \<Rightarrow>
              if \<not> ok then io_throw (Error ''Telegram API returned ok: false'')
              else
                io_return
                  \<lparr>isActive = (url info \<noteq> [] \<and>
                                (falsy (last_error_date info) \<or> pending_update_count info = 0)),
                   status_url = str_or_null (Some (url info)),
                   pendingUpdateCount = pending_update_count info,
                   lastErrorDate = last_error_date info,
                   lastErrorMessage = last_error_message info\<rparr>)))
       (\<lambda>error.
          io_return \<lparr>isActive = False, status_url = None, pendingUpdateCount = 0,
                     lastErrorDate = None, lastErrorMessage = Some (exn_text error)\<rparr>)"

subsection \<open>applyWebhook, resetWebhook, deleteWebhook\<close>



definition resetWebhook :: "unit io" where
  "resetWebhook =
     io_bind (entered CallResetWebhook) (\<lambda>_.
     try_catch
       (io_bind (getGatewaySetting ''production_webhook_url'' None) (\<lambda>productionUrl.
        if \<not> truthy productionUrl then io_return ()
        else
          io_bind getBotToken (\<lambda>botToken.
          if \<not> truthy botToken then io_return ()
          else
            io_bind (fetch_setWebhook (str_or productionUrl [])) (\<lambda>response.
            case response of
              NotOk statusText \<Rightarrow> io_throw (Error (''Failed to set webhook: '' @ statusText))
            | Body ok description info \<Rightarrow> io_return ()))))
       (\<lambda>error. io_return ()))"


subsection \<open>checkAndRestart: one reconciliation cycle\<close>

text \<open>
  The method is given in two parts: \<open>attemptRestart\<close> is its last part, from the comment
  \<^verbatim>\<open>// Attempt restart\<close> on (the restart, its row in the restart log, and after a
  successful restart the pause, the webhook reset and a second row in the webhook log);
  \<open>checkAndRestart\<close> is the whole method.
\<close>

definition attemptRestart :: "webhook_status \<Rightarrow> unit io" where
  "attemptRestart webhookStatus =
     io_bind
       (try_catch (restart (Some ''webhook_check''))
          (\<lambda>restartError.
             io_return \<lparr>success = False, message = ''Gateway restart failed'',
                        oldPid = None, newPid = None, duration = 0,
                        error = Some (exn_text restartError)\<rparr>)) (\<lambda>restartResult.
     io_bind (insertGatewayRestartLog (\<lambda>t.
                \<lparr>triggerType = Webhook_check,
                 triggerUserId = None,
                 reason = ''Webhook inactive: '' @
                          str_or (lastErrorMessage webhookStatus) ''No error message'',
                 log_oldPid = num_or_null (oldPid restartResult),
                 log_newPid = num_or_null (newPid restartResult),
                 log_success = success restartResult,
                 errorMessage = str_or_null (error restartResult),
                 durationMs = duration restartResult,
                 createdAt = t\<rparr>)) (\<lambda>_.
     if success restartResult then
       io_bind (sleep 5000) (\<lambda>_.
       io_bind resetWebhook (\<lambda>_.
       io_bind date_now (\<lambda>t2.
       insertWebhookStatusLog
         \<lparr>checkTimestamp = t2,
          webhookUrl = str_or_null (status_url webhookStatus),
          log_isActive = False,
          log_pendingUpdateCount = pendingUpdateCount webhookStatus,
          log_lastErrorDate = num_or_null (lastErrorDate webhookStatus),
          log_lastErrorMessage = Some ''Restarted Gateway'',
          responseTimeMs = duration restartResult,
          actionTaken = ActRestart\<rparr>)))
     else io_return ()))"

definition checkAndRestart :: "unit io" where
  "checkAndRestart =
     try_catch
       (io_bind date_now (\<lambda>startTime.
        io_bind checkWebhookStatus (\<lambda>webhookStatus.
        io_bind date_now (\<lambda>endTime.
        io_bind date_now (\<lambda>t0.
        io_bind (insertWebhookStatusLog
                   \<lparr>checkTimestamp = t0,
                    webhookUrl = str_or_null (status_url webhookStatus),
                    log_isActive = isActive webhookStatus,
                    log_pendingUpdateCount = pendingUpdateCount webhookStatus,
                    log_lastErrorDate = num_or_null (lastErrorDate webhookStatus),
                    log_lastErrorMessage = str_or_null (lastErrorMessage webhookStatus),
                    responseTimeMs = endTime - startTime,
                    actionTaken = ActNone\<rparr>) (\<lambda>_.
        if \<not> isActive webhookStatus then
          io_bind (getGatewaySetting ''auto_restart_enabled'' (Some ''true'')) (\<lambda>setting.
          if \<not> (setting = Some ''true'') then io_return ()
          else
            io_bind (getRecentRestartAttempts 5) (\<lambda>recentAttempts.
            io_bind (getGatewaySetting ''max_restart_attempts'' (Some ''3'')) (\<lambda>maxSetting.
            if ge_num recentAttempts (parseInt (str_or maxSetting ''3'')) then
              io_bind (notifyOwner (WebhookKeepsFailing recentAttempts)) (\<lambda>_.
              io_bind date_now (\<lambda>t1.
              insertWebhookStatusLog
                \<lparr>checkTimestamp = t1,
                 webhookUrl = str_or_null (status_url webhookStatus),
                 log_isActive = False,
                 log_pendingUpdateCount = pendingUpdateCount webhookStatus,
                 log_lastErrorDate = num_or_null (lastErrorDate webhookStatus),
                 log_lastErrorMessage = Some ''Max restart attempts reached'',
                 responseTimeMs = 0,
                 actionTaken = ActAlert\<rparr>))
            else attemptRestart webhookStatus)))
        else io_return ()))))))
       (\<lambda>error. io_return ())"

section \<open>The mode switch (setConnectionMode)\<close>

datatype mode = Gateway | Webhook




section \<open>Reasoning about the supervisor\<close>

text \<open>
  The private helpers are first given in closed form; then \<open>stop\<close>, \<open>start\<close>,
  \<open>restart\<close> and the reconciliation cycle are taken apart case by case.
\<close>

lemmas io_defs = io_bind_def try_catch_def io_return_def io_throw_def

definition signalable :: "world \<Rightarrow> int \<Rightarrow> bool" where
  "signalable w p = (case find_proc w p of None \<Rightarrow> False | Some pr \<Rightarrow> may_signal pr)"

definition gateway_pids :: "world \<Rightarrow> int list" where
  "gateway_pids w = map fst (filter (\<lambda>(q, r). cmd_matches r \<and> alive_at (now w) r) (procs w))"

lemma isProcessRunning_eq: "isProcessRunning p w = (Ret (signalable w p), w)"
  by (simp add: isProcessRunning_def signalable_def kill_def io_defs split: option.splits)

lemma clearPidFile_eq: "clearPidFile w = (Ret (), w\<lparr>pidFile := NoFile\<rparr>)"
  by (cases "pidFile w") (simp_all add: clearPidFile_def unlinkPidFile_def io_defs)

lemma getCurrentPid_eq:
  "getCurrentPid w =
     (case pidFile w of
        Content c \<Rightarrow> (Ret c, w)
      | NoFile \<Rightarrow>
          if gateway_pids w = [] \<or> disk_full w then (Ret None, w)
          else (Ret (Some (last (gateway_pids w))), w\<lparr>pidFile := Content (Some (last (gateway_pids w)))\<rparr>))"
  by (simp add: getCurrentPid_def readPidFile_def pgrep_def savePid_def gateway_pids_def io_defs Let_def
           split: pid_file.splits)

definition metrics_of :: "world \<Rightarrow> int \<Rightarrow> int \<times> rat \<times> rat" where
  "metrics_of w p =
     (case find_proc w p of
        None \<Rightarrow> (0, 0, 0)
      | Some pr \<Rightarrow>
          (case ps_out pr of
             None \<Rightarrow> (0, 0, 0)
           | Some (up, cpu, rss) \<Rightarrow>
               (or_zero up, or_zero cpu, or_zero (map_option (\<lambda>k. rat_of_int k / 1024) rss))))"

lemma getProcessMetrics_eq: "getProcessMetrics p w = (Ret (metrics_of w p), w)"
  by (simp add: getProcessMetrics_def execPs_def metrics_of_def io_defs
           split: option.splits prod.splits)

subsection \<open>What the process manager leaves alone\<close>

definition pm_frame :: "world \<Rightarrow> world \<Rightarrow> bool" where
  "pm_frame w w' \<longleftrightarrow>
     settings w' = settings w \<and> bot_token w' = bot_token w \<and> hook w' = hook w \<and>
     api_script w' = api_script w \<and> webhook_logs w' = webhook_logs w \<and>
     restart_logs w' = restart_logs w \<and> alerts w' = alerts w \<and>
     disk_full w' = disk_full w \<and> db_handle w' = db_handle w \<and> db_script w' = db_script w \<and>
     now w \<le> now w' \<and>
     (\<exists>cs. calls w' = calls w @ cs \<and> set cs \<subseteq> {CallStart, CallStop})"

lemma pm_frame_refl: "pm_frame w w"
  by (simp add: pm_frame_def)

lemma pm_frame_trans: "pm_frame w w1 \<Longrightarrow> pm_frame w1 w2 \<Longrightarrow> pm_frame w w2"
  unfolding pm_frame_def by auto

lemma waitForShutdown_loop_spec:
  "\<exists>b t. waitForShutdown_loop p timeout st w = (Ret b, w\<lparr>now := t\<rparr>) \<and> now w \<le> t \<and>
         (b \<longrightarrow> \<not> signalable (w\<lparr>now := t\<rparr>) p)"
proof (induction p timeout st w rule: waitForShutdown_loop.induct)
  case (1 p timeout st w)
  show ?case
  proof (cases "now w - st < timeout \<and> signalable w p")
    case True
    define w1 where "w1 = w\<lparr>now := now w + 500\<rparr>"
    have step: "waitForShutdown_loop p timeout st w = waitForShutdown_loop p timeout st w1"
      using True by (subst waitForShutdown_loop.simps) (simp add: isProcessRunning_eq sleep_def w1_def)
    have "\<exists>b t. waitForShutdown_loop p timeout st w1 = (Ret b, w1\<lparr>now := t\<rparr>) \<and>
               now w1 \<le> t \<and> (b \<longrightarrow> \<not> signalable (w1\<lparr>now := t\<rparr>) p)"
    proof (rule 1)
      show "now w - st < timeout" using True by simp
      show "(Ret True, w) = isProcessRunning p w" using True by (simp add: isProcessRunning_eq)
      show "Ret True = Ret True" by simp
      show "\<not> \<not> True" by simp
      show "(Ret (), w1) = sleep 500 w" by (simp add: sleep_def w1_def)
      show "Ret () = Ret ()" by simp
    qed
    then obtain b t where bt:
      "waitForShutdown_loop p timeout st w1 = (Ret b, w1\<lparr>now := t\<rparr>)"
      "now w1 \<le> t" "b \<longrightarrow> \<not> signalable (w1\<lparr>now := t\<rparr>) p"
      by blast
    have eq: "w1\<lparr>now := t\<rparr> = w\<lparr>now := t\<rparr>" by (simp add: w1_def)
    show ?thesis
      apply (rule exI[of _ b], rule exI[of _ t])
      using bt step eq by (simp add: w1_def)
  next
    case False
    show ?thesis
    proof (cases "now w - st < timeout")
      case True
      with False have "\<not> signalable w p" by simp
      then have "waitForShutdown_loop p timeout st w = (Ret True, w)"
        using True by (subst waitForShutdown_loop.simps) (simp add: isProcessRunning_eq)
      then show ?thesis
        using \<open>\<not> signalable w p\<close> by (intro exI[of _ True] exI[of _ "now w"]) simp
    next
      case False
      then have "waitForShutdown_loop p timeout st w = (Ret False, w)"
        by (subst waitForShutdown_loop.simps) simp
      then show ?thesis
        by (intro exI[of _ False] exI[of _ "now w"]) simp
    qed
  qed
qed

lemma find_proc_upd [simp]:
  "find_proc (w\<lparr>calls := c\<rparr>) = find_proc w"
  "find_proc (w\<lparr>pidFile := f\<rparr>) = find_proc w"
  by (simp_all add: find_proc_def fun_eq_iff cong: option.case_cong)

lemma signalable_upd [simp]:
  "signalable (w\<lparr>calls := c\<rparr>) = signalable w"
  "signalable (w\<lparr>pidFile := f\<rparr>) = signalable w"
  by (simp_all add: signalable_def fun_eq_iff)

lemma gateway_pids_upd [simp]:
  "gateway_pids (w\<lparr>calls := c\<rparr>) = gateway_pids w"
  "gateway_pids (w\<lparr>pidFile := f\<rparr>) = gateway_pids w"
  by (simp_all add: gateway_pids_def)

definition resolved_pid :: "world \<Rightarrow> int option" where
  "resolved_pid w =
     (case pidFile w of
        Content c \<Rightarrow> c
      | NoFile \<Rightarrow> if gateway_pids w = [] \<or> disk_full w then None
                  else Some (last (gateway_pids w)))"

definition healed :: "world \<Rightarrow> world" where
  "healed w =
     (case pidFile w of
        Content c \<Rightarrow> w
      | NoFile \<Rightarrow> if gateway_pids w = [] \<or> disk_full w then w
                  else w\<lparr>pidFile := Content (Some (last (gateway_pids w)))\<rparr>)"

lemma getCurrentPid_resolved: "getCurrentPid w = (Ret (resolved_pid w), healed w)"
  by (simp add: getCurrentPid_eq resolved_pid_def healed_def split: pid_file.splits)

lemma healed_fields [simp]:
  "now (healed w) = now w" "procs (healed w) = procs w" "calls (healed w) = calls w"
  "spawn_script (healed w) = spawn_script w" "settings (healed w) = settings w"
  "bot_token (healed w) = bot_token w" "hook (healed w) = hook w"
  "api_script (healed w) = api_script w" "webhook_logs (healed w) = webhook_logs w"
  "restart_logs (healed w) = restart_logs w" "alerts (healed w) = alerts w"
  "disk_full (healed w) = disk_full w" "db_handle (healed w) = db_handle w"
  "db_script (healed w) = db_script w"
  by (simp_all add: healed_def split: pid_file.splits)

lemma healed_find [simp]: "find_proc (healed w) = find_proc w" "signalable (healed w) = signalable w"
  by (simp_all add: healed_def split: pid_file.splits)

lemma resolved_upd [simp]: "resolved_pid (w\<lparr>calls := c\<rparr>) = resolved_pid w"
  by (simp add: resolved_pid_def cong: pid_file.case_cong)

lemma healed_calls: "healed (w\<lparr>calls := c\<rparr>) = (healed w)\<lparr>calls := c\<rparr>"
  by (simp add: healed_def split: pid_file.splits)

lemma map_of_signalled:
  "map_of (map (\<lambda>(q, r). if q = p \<and> A r then (q, f r) else (q, r)) ps) k =
     map_option (\<lambda>r. if k = p \<and> A r then f r else r) (map_of ps k)"
  by (induction ps) auto

lemma may_signal_deliver [simp]: "may_signal (deliver sig t r) = may_signal r"
  by (simp add: deliver_def split: signal.splits option.splits)

lemma dead_stays_dead:
  "find_proc w p = None \<Longrightarrow> now w \<le> t \<Longrightarrow> find_proc (w\<lparr>now := t\<rparr>) p = None"
  by (auto simp: find_proc_def alive_at_def split: option.splits if_splits)

definition signalled :: "int \<Rightarrow> signal \<Rightarrow> world \<Rightarrow> world" where
  "signalled p sig w =
     w\<lparr>procs := map (\<lambda>(q, r). if q = p \<and> alive_at (now w) r
                                then (q, deliver sig (now w) r) else (q, r)) (procs w)\<rparr>"

lemma kill_eq:
  "kill p sig w =
     (case find_proc w p of
        None \<Rightarrow> (Throw (SysError ESRCH), w)
      | Some pr \<Rightarrow>
          if \<not> may_signal pr then (Throw (SysError EPERM), w)
          else if sig = SIG0 then (Ret (), w)
          else (Ret (), signalled p sig w))"
  by (simp add: kill_def signalled_def split: option.splits)

lemma signalled_fields [simp]:
  "now (signalled p sig w) = now w" "calls (signalled p sig w) = calls w"
  "pidFile (signalled p sig w) = pidFile w"
  "spawn_script (signalled p sig w) = spawn_script w" "settings (signalled p sig w) = settings w"
  "bot_token (signalled p sig w) = bot_token w" "hook (signalled p sig w) = hook w"
  "api_script (signalled p sig w) = api_script w" "webhook_logs (signalled p sig w) = webhook_logs w"
  "restart_logs (signalled p sig w) = restart_logs w" "alerts (signalled p sig w) = alerts w"
  "disk_full (signalled p sig w) = disk_full w" "db_handle (signalled p sig w) = db_handle w"
  "db_script (signalled p sig w) = db_script w"
  by (simp_all add: signalled_def)

lemma killed_is_dead: "find_proc (signalled p SIGKILL w) p = None"
  by (auto simp: find_proc_def signalled_def map_of_signalled deliver_def alive_at_def
           split: option.splits)

lemma signalled_may_signal:
  "find_proc (signalled p sig w\<lparr>now := t\<rparr>) p = Some r \<Longrightarrow> find_proc w p = Some pr \<Longrightarrow>
     may_signal r = may_signal pr"
  by (auto simp: find_proc_def signalled_def map_of_signalled split: option.splits if_splits)

definition stop_tail :: "int \<Rightarrow> op_result io" where
  "stop_tail p =
     try_catch
       (io_bind (waitForShutdown p SHUTDOWN_TIMEOUT) (\<lambda>stopped.
        io_bind
          (if \<not> stopped then
             io_bind
               (try_catch (kill p SIGKILL)
                  (\<lambda>error. if code error \<noteq> Some ESRCH then io_throw error else io_return ()))
               (\<lambda>_. sleep 1000)
           else io_return ())
          (\<lambda>_.
        io_bind clearPidFile (\<lambda>_.
        io_return \<lparr>success = True, message = ''Gateway stopped successfully''\<rparr>))))
       (\<lambda>error.
          io_return \<lparr>success = False, message = ''Failed to stop Gateway: '' @ exn_text error\<rparr>)"

lemma stop_unfold:
  "stop w =
     (let w1 = healed (w\<lparr>calls := calls w @ [CallStop]\<rparr>) in
      case resolved_pid w of
        None \<Rightarrow> (Ret \<lparr>success = True, message = ''Gateway is not running''\<rparr>, w1)
      | Some p \<Rightarrow>
          if p = 0 then (Ret \<lparr>success = True, message = ''Gateway is not running''\<rparr>, w1)
          else
            (case find_proc w p of
               None \<Rightarrow> (Ret \<lparr>success = True, message = ''Gateway process was not running''\<rparr>,
                        w1\<lparr>pidFile := NoFile\<rparr>)
             | Some pr \<Rightarrow>
                 if \<not> may_signal pr then
                   (Ret \<lparr>success = False,
                         message = ''Failed to stop Gateway: Error: kill EPERM''\<rparr>, w1)
                 else stop_tail p (signalled p SIGTERM w1)))"
  by (simp add: stop_def stop_tail_def entered_def getCurrentPid_resolved kill_eq clearPidFile_eq
        io_defs Let_def split: option.splits)

lemma pm_frame_field_upd [simp]:
  "pm_frame w (w'\<lparr>pidFile := f\<rparr>) \<longleftrightarrow> pm_frame w w'"
  "pm_frame w (w'\<lparr>procs := ps\<rparr>) \<longleftrightarrow> pm_frame w w'"
  by (auto simp: pm_frame_def)

lemma stop_tail_spec:
  assumes perm: "\<And>r t. find_proc (w\<lparr>now := t\<rparr>) p = Some r \<Longrightarrow> may_signal r"
  shows "\<exists>w'. stop_tail p w = (Ret \<lparr>success = True, message = ''Gateway stopped successfully''\<rparr>, w') \<and>
              find_proc w' p = None \<and> pidFile w' = NoFile \<and> calls w' = calls w \<and>
              spawn_script w' = spawn_script w \<and> pm_frame w w'"
proof -
  obtain b t where loop:
    "waitForShutdown_loop p SHUTDOWN_TIMEOUT (now w) w = (Ret b, w\<lparr>now := t\<rparr>)"
    "now w \<le> t" "b \<longrightarrow> \<not> signalable (w\<lparr>now := t\<rparr>) p"
    using waitForShutdown_loop_spec by blast
  define w3 where "w3 = w\<lparr>now := t\<rparr>"
  have wait: "waitForShutdown p SHUTDOWN_TIMEOUT w = (Ret b, w3)"
    by (simp add: waitForShutdown_def date_now_def io_defs loop w3_def)
  have fr3: "pm_frame w w3" "calls w3 = calls w" "spawn_script w3 = spawn_script w"
    using loop(2) by (simp_all add: pm_frame_def w3_def)
  show ?thesis
  proof (cases b)
    case True
    then have "find_proc w3 p = None"
      using loop(3) perm[of t] by (auto simp: signalable_def w3_def split: option.splits)
    then show ?thesis
      using True wait fr3
      by (simp add: stop_tail_def io_defs clearPidFile_eq pm_frame_def)
  next
    case False
    show ?thesis
    proof (cases "find_proc w3 p")
      case None
      then have "find_proc (w3\<lparr>now := now w3 + 1000\<rparr>) p = None"
        by (intro dead_stays_dead) simp_all
      then show ?thesis
        using False wait fr3 None
        by (simp add: stop_tail_def io_defs clearPidFile_eq kill_eq sleep_def pm_frame_def)
    next
      case (Some r)
      then have "may_signal r" using perm[of t] by (simp add: w3_def)
      moreover have "find_proc ((signalled p SIGKILL w3)\<lparr>now := now (signalled p SIGKILL w3) + 1000\<rparr>) p = None"
        by (intro dead_stays_dead killed_is_dead) simp
      ultimately show ?thesis
        using False wait fr3 Some
        by (simp add: stop_tail_def io_defs clearPidFile_eq kill_eq sleep_def pm_frame_def)
    qed
  qed
qed

definition blocked :: "world \<Rightarrow> bool" where
  "blocked w \<longleftrightarrow>
     (\<exists>p pr. resolved_pid w = Some p \<and> p \<noteq> 0 \<and> find_proc w p = Some pr \<and> \<not> may_signal pr)"

lemma stop_spec:
  "\<exists>r w'. stop w = (Ret r, w') \<and> pm_frame w w' \<and> calls w' = calls w @ [CallStop] \<and>
          spawn_script w' = spawn_script w \<and>
          (success r \<longleftrightarrow> \<not> blocked w) \<and>
          (blocked w \<longrightarrow> procs w' = procs w \<and> now w' = now w) \<and>
          (success r \<longrightarrow> (\<forall>p. resolved_pid w = Some p \<longrightarrow> p \<noteq> 0 \<longrightarrow>
                          find_proc w' p = None \<and> pidFile w' = NoFile))"
proof (cases "resolved_pid w")
  case None
  then show ?thesis
    by (simp add: stop_unfold blocked_def pm_frame_def)
next
  case (Some p)
  show ?thesis
  proof (cases "p = 0")
    case True
    with Some show ?thesis by (simp add: stop_unfold blocked_def pm_frame_def)
  next
    case nz: False
    show ?thesis
    proof (cases "find_proc w p")
      case None
      with Some nz show ?thesis by (simp add: stop_unfold blocked_def pm_frame_def)
    next
      case (Some pr)
      note pr = this
      show ?thesis
      proof (cases "may_signal pr")
        case False
        with \<open>resolved_pid w = Some p\<close> nz pr show ?thesis
          by (simp add: stop_unfold blocked_def pm_frame_def)
      next
        case True
        define w2 where "w2 = signalled p SIGTERM (healed (w\<lparr>calls := calls w @ [CallStop]\<rparr>))"
        have pr1: "find_proc (healed (w\<lparr>calls := calls w @ [CallStop]\<rparr>)) p = Some pr"
          using pr by simp
        have perm: "may_signal r" if "find_proc (w2\<lparr>now := t\<rparr>) p = Some r" for r t
          using signalled_may_signal[OF that[unfolded w2_def] pr1] True by simp
        have "\<exists>w'. stop_tail p w2 = (Ret \<lparr>success = True, message = ''Gateway stopped successfully''\<rparr>, w') \<and>
              find_proc w' p = None \<and> pidFile w' = NoFile \<and> calls w' = calls w2 \<and>
              spawn_script w' = spawn_script w2 \<and> pm_frame w2 w'"
          by (rule stop_tail_spec) (erule perm)
        then obtain w' where tail:
          "stop_tail p w2 = (Ret \<lparr>success = True, message = ''Gateway stopped successfully''\<rparr>, w')"
          "find_proc w' p = None" "pidFile w' = NoFile" "calls w' = calls w2"
          "spawn_script w' = spawn_script w2" "pm_frame w2 w'"
          by blast
        have "pm_frame w w'" using tail(6) tail(4) by (simp add: pm_frame_def w2_def)
        then show ?thesis
          using \<open>resolved_pid w = Some p\<close> nz pr True tail
          by (simp add: stop_unfold blocked_def w2_def)
      qed
    qed
  qed
qed

lemma healed_Content: "pidFile w = Content c \<Longrightarrow> healed w = w"
  by (simp add: healed_def)

subsection \<open>Composing frames\<close>

definition keeps :: "'a io \<Rightarrow> bool" where
  "keeps m \<longleftrightarrow> (\<forall>w. pm_frame w (snd (m w)))"

lemma keepsD: "keeps m \<Longrightarrow> m w = (r, w') \<Longrightarrow> pm_frame w w'"
  by (auto simp: keeps_def dest: spec[of _ w])

lemma keeps_return: "keeps (io_return x)"
  by (simp add: keeps_def io_return_def pm_frame_refl)

lemma keeps_throw: "keeps (io_throw e)"
  by (simp add: keeps_def io_throw_def pm_frame_refl)

lemma keeps_bind:
  assumes "keeps m" and "\<And>x. keeps (f x)"
  shows "keeps (io_bind m f)"
  unfolding keeps_def
proof
  fix w
  obtain r w1 where m: "m w = (r, w1)" by (cases "m w")
  have 1: "pm_frame w w1" using keepsD[OF assms(1) m] .
  show "pm_frame w (snd (io_bind m f w))"
  proof (cases r)
    case (Ret x)
    obtain r2 w2 where f: "f x w1 = (r2, w2)" by (cases "f x w1")
    have "pm_frame w1 w2" using keepsD[OF assms(2) f] .
    with 1 have "pm_frame w w2" by (rule pm_frame_trans)
    then show ?thesis using m Ret f by (simp add: io_bind_def)
  next
    case (Throw e)
    then show ?thesis using m 1 by (simp add: io_bind_def)
  qed
qed

lemma keeps_catch:
  assumes "keeps m" and "\<And>e. keeps (h e)"
  shows "keeps (try_catch m h)"
  unfolding keeps_def
proof
  fix w
  obtain r w1 where m: "m w = (r, w1)" by (cases "m w")
  have 1: "pm_frame w w1" using keepsD[OF assms(1) m] .
  show "pm_frame w (snd (try_catch m h w))"
  proof (cases r)
    case (Throw e)
    obtain r2 w2 where h: "h e w1 = (r2, w2)" by (cases "h e w1")
    have "pm_frame w1 w2" using keepsD[OF assms(2) h] .
    with 1 have "pm_frame w w2" by (rule pm_frame_trans)
    then show ?thesis using m Throw h by (simp add: try_catch_def)
  next
    case (Ret x)
    then show ?thesis using m 1 by (simp add: try_catch_def)
  qed
qed

lemma keeps_if: "(c \<Longrightarrow> keeps a) \<Longrightarrow> (\<not> c \<Longrightarrow> keeps b) \<Longrightarrow> keeps (if c then a else b)"
  by simp

lemma keeps_case_option:
  "(x = None \<Longrightarrow> keeps a) \<Longrightarrow> (\<And>y. x = Some y \<Longrightarrow> keeps (b y)) \<Longrightarrow>
     keeps (case x of None \<Rightarrow> a | Some y \<Rightarrow> b y)"
  by (cases x) simp_all

lemma keeps_prims:
  "keeps getCurrentPid" "keeps (isProcessRunning p)" "keeps clearPidFile" "keeps (savePid p)"
  "keeps spawn" "keeps date_now" "keeps (isPortListening pt)"
  "keeps (entered CallStart)" "keeps (entered CallStop)" "keeps stop"
  "0 \<le> d \<Longrightarrow> keeps (sleep d)"
proof -
  show "keeps getCurrentPid"
    by (simp add: keeps_def getCurrentPid_resolved pm_frame_def)
  show "keeps (isProcessRunning p)"
    by (simp add: keeps_def isProcessRunning_eq pm_frame_def)
  show "keeps clearPidFile"
    by (simp add: keeps_def clearPidFile_eq pm_frame_def)
  show "keeps (savePid p)"
    by (simp add: keeps_def savePid_def pm_frame_def)
  show "keeps spawn"
    by (auto simp: keeps_def spawn_def pm_frame_def split: list.splits option.splits)
  show "keeps date_now"
    by (simp add: keeps_def date_now_def pm_frame_def)
  show "keeps (isPortListening pt)"
    by (simp add: keeps_def isPortListening_def pm_frame_def)
  show "keeps (entered CallStart)"
    by (simp add: keeps_def entered_def pm_frame_def)
  show "keeps (entered CallStop)"
    by (simp add: keeps_def entered_def pm_frame_def)
  show "keeps stop"
    unfolding keeps_def using stop_spec by (metis snd_conv)
  show "keeps (sleep d)" if "0 \<le> d"
    using that by (simp add: keeps_def sleep_def pm_frame_def)
qed

lemma waitForStartup_loop_spec:
  "\<exists>b t. waitForStartup_loop p st w = (Ret b, w\<lparr>now := t\<rparr>) \<and> now w \<le> t"
proof (induction p st w rule: waitForStartup_loop.induct)
  case (1 p st w)
  define listens where "listens = (case isPortListening DEFAULT_PORT w of (Ret b, _) \<Rightarrow> b | _ \<Rightarrow> False)"
  have port: "isPortListening DEFAULT_PORT w = (Ret listens, w)"
    by (simp add: listens_def isPortListening_def)
  show ?case
  proof (cases "now w - st < STARTUP_TIMEOUT \<and> signalable w p \<and> \<not> listens")
    case True
    define w1 where "w1 = w\<lparr>now := now w + 1000\<rparr>"
    have step: "waitForStartup_loop p st w = waitForStartup_loop p st w1"
      using True
      by (subst waitForStartup_loop.simps) (simp add: isProcessRunning_eq port sleep_def w1_def)
    have "\<exists>b t. waitForStartup_loop p st w1 = (Ret b, w1\<lparr>now := t\<rparr>) \<and> now w1 \<le> t"
    proof (rule 1)
      show "now w - st < STARTUP_TIMEOUT" using True by simp
      show "(Ret True, w) = isProcessRunning p w" using True by (simp add: isProcessRunning_eq)
      show "Ret True = Ret True" by simp
      show "\<not> \<not> True" by simp
      show "(Ret listens, w) = isPortListening DEFAULT_PORT w" by (simp add: port)
      show "Ret listens = Ret listens" by simp
      show "\<not> listens" using True by simp
      show "(Ret (), w1) = sleep 1000 w" by (simp add: sleep_def w1_def)
      show "Ret () = Ret ()" by simp
    qed
    then obtain b t where bt:
      "waitForStartup_loop p st w1 = (Ret b, w1\<lparr>now := t\<rparr>)" "now w1 \<le> t"
      by blast
    show ?thesis
      apply (rule exI[of _ b], rule exI[of _ t])
      using bt step by (simp add: w1_def)
  next
    case False
    then have "\<exists>b. waitForStartup_loop p st w = (Ret b, w)"
      by (subst waitForStartup_loop.simps) (auto simp: isProcessRunning_eq port)
    then obtain b where "waitForStartup_loop p st w = (Ret b, w)" by blast
    then show ?thesis
      by (intro exI[of _ b] exI[of _ "now w"]) simp
  qed
qed

lemma keeps_waits: "keeps (waitForStartup p)" "keeps (waitForShutdown p timeout)"
proof -
  show "keeps (waitForStartup p)"
    unfolding keeps_def
  proof
    fix w
    obtain b t where "waitForStartup_loop p (now w) w = (Ret b, w\<lparr>now := t\<rparr>)" "now w \<le> t"
      using waitForStartup_loop_spec by blast
    then show "pm_frame w (snd (waitForStartup p w))"
      by (simp add: waitForStartup_def date_now_def io_defs pm_frame_def)
  qed
  show "keeps (waitForShutdown p timeout)"
    unfolding keeps_def
  proof
    fix w
    obtain b t where "waitForShutdown_loop p timeout (now w) w = (Ret b, w\<lparr>now := t\<rparr>)" "now w \<le> t"
      using waitForShutdown_loop_spec by blast
    then show "pm_frame w (snd (waitForShutdown p timeout w))"
      by (simp add: waitForShutdown_def date_now_def io_defs pm_frame_def)
  qed
qed

lemmas keeps_intros = keeps_return keeps_throw keeps_bind keeps_catch keeps_if keeps_case_option
  keeps_prims keeps_waits

lemma keeps_start: "keeps start"
  unfolding start_def by (intro keeps_intros)

lemma keeps_healthCheck: "keeps healthCheck"
  unfolding healthCheck_def by (intro keeps_intros)

lemma caught_returns:
  assumes "\<And>e w. \<exists>x w'. h e w = (Ret x, w')"
  shows "\<exists>x w'. try_catch m h w = (Ret x, w')"
proof (cases "m w")
  case (Pair r w1)
  then show ?thesis
    using assms by (cases r) (simp_all add: try_catch_def)
qed

lemma start_returns: "\<exists>r w'. start w = (Ret r, w')"
proof -
  have "\<exists>x w'. try_catch m (\<lambda>error. io_return (h error)) w = (Ret x, w')" for m :: "start_result io" and h w
    by (rule caught_returns) (simp add: io_return_def)
  then show ?thesis
    by (simp add: start_def io_bind_def entered_def)
qed

lemma healthCheck_returns: "\<exists>r w'. healthCheck w = (Ret r, w')"
  unfolding healthCheck_def by (rule caught_returns) (auto simp: io_return_def)

lemma stop_fails_iff: "(\<exists>s ws. stop w = (Ret s, ws) \<and> \<not> success s) \<longleftrightarrow> blocked w"
  using stop_spec[of w] by auto

lemma resolved_healed [simp]: "resolved_pid (healed w) = resolved_pid w"
  by (simp add: resolved_pid_def healed_def split: pid_file.splits)

lemma blocked_upd [simp]: "blocked (w\<lparr>calls := c\<rparr>) = blocked w" "blocked (healed w) = blocked w"
  by (simp_all add: blocked_def)

lemma restart_cases:
  "\<exists>r w'. restart reason_arg w = (Ret r, w') \<and>
          pm_frame (w\<lparr>calls := calls w @ [CallRestart]\<rparr>) w' \<and>
          0 \<le> duration r \<and> (\<not> success r \<longrightarrow> message r \<noteq> []) \<and>
          (blocked w \<longrightarrow>
             \<not> success r \<and> message r = ''Failed to stop old process'' \<and>
             (\<forall>s ws. stop w = (Ret s, ws) \<longrightarrow> error r = Some (message s)) \<and>
             oldPid r = resolved_pid w \<and> newPid r = None \<and>
             calls w' = calls w @ [CallRestart, CallStop] \<and> procs w' = procs w \<and>
             spawn_script w' = spawn_script w \<and> now w' = now w)"
proof -
  define w0 where "w0 = w\<lparr>calls := calls w @ [CallRestart]\<rparr>"
  define w1 where "w1 = healed w0"
  have f01: "pm_frame w0 w1" by (simp add: w1_def pm_frame_def)
  obtain s w2 where stop: "stop w1 = (Ret s, w2)" and f12: "pm_frame w1 w2"
    and c2: "calls w2 = calls w1 @ [CallStop]" and sp2: "spawn_script w2 = spawn_script w1"
    and ok: "success s \<longleftrightarrow> \<not> blocked w1"
    and bl: "blocked w1 \<longrightarrow> procs w2 = procs w1 \<and> now w2 = now w1"
    using stop_spec[of w1] by blast
  have f02: "pm_frame w0 w2" using f01 f12 by (rule pm_frame_trans)
  have blocked_eq: "blocked w1 = blocked w" by (simp add: w1_def w0_def)
  have msg: "stop w = (Ret s', ws) \<Longrightarrow> blocked w \<Longrightarrow> message s' = message s" for s' ws
    using stop blocked_eq
    by (auto simp: stop_unfold blocked_def w1_def w0_def Let_def split: option.splits if_splits)
  show ?thesis
  proof (cases "success s")
    case False
    then have "blocked w" using ok blocked_eq by simp
    then show ?thesis
      using False stop[unfolded w1_def w0_def] f02[unfolded w0_def] c2 sp2 bl blocked_eq msg
      by (simp add: restart_def io_defs entered_def date_now_def getCurrentPid_resolved
            w1_def w0_def)
  next
    case True
    then have nb: "\<not> blocked w" using ok blocked_eq by simp
    define w3 where "w3 = w2\<lparr>now := now w2 + 2000\<rparr>"
    have f23: "pm_frame w2 w3" by (simp add: w3_def pm_frame_def)
    obtain sr w4 where start: "start w3 = (Ret sr, w4)"
      using start_returns by blast
    have f34: "pm_frame w3 w4" using keepsD[OF keeps_start start] .
    have f04: "pm_frame w0 w4" using f02 f23 f34 by (blast intro: pm_frame_trans)
    have t4: "now w \<le> now w4" using f04 by (simp add: pm_frame_def w0_def)
    show ?thesis
    proof (cases "success sr")
      case False
      then show ?thesis
        using True nb stop[unfolded w1_def w0_def] start[unfolded w3_def] f04[unfolded w0_def] t4
        by (simp add: restart_def io_defs entered_def date_now_def sleep_def getCurrentPid_resolved)
    next
      case sr_ok: True
      define w5 where "w5 = w4\<lparr>now := now w4 + 3000\<rparr>"
      have f45: "pm_frame w4 w5" by (simp add: w5_def pm_frame_def)
      obtain h w6 where hc: "healthCheck w5 = (Ret h, w6)"
        using healthCheck_returns by blast
      have f56: "pm_frame w5 w6" using keepsD[OF keeps_healthCheck hc] .
      have f06: "pm_frame w0 w6" using f04 f45 f56 by (blast intro: pm_frame_trans)
      show ?thesis
        using True nb sr_ok stop[unfolded w1_def w0_def] start[unfolded w3_def] hc[unfolded w5_def]
          f06[unfolded w0_def] t4
        by (cases h)
           (simp_all add: restart_def io_defs entered_def date_now_def sleep_def getCurrentPid_resolved)
    qed
  qed
qed

subsection \<open>The database\<close>

text \<open>
  \<open>db_ok\<close>: the database has a handle and none of its coming queries fails. The functions
  of \<^verbatim>\<open>db.ts\<close> are given in closed form, in general and for a database that works.
\<close>

definition db_ok :: "world \<Rightarrow> bool" where
  "db_ok w \<longleftrightarrow> db_handle w \<and> db_script w = []"

definition query_fails :: "world \<Rightarrow> bool" where
  "query_fails w \<longleftrightarrow> (\<exists>rest. db_script w = DbError # rest)"

definition after_query :: "world \<Rightarrow> world" where
  "after_query w = w\<lparr>db_script := tl (db_script w)\<rparr>"

lemma db_query_eq:
  "db_query w = (if query_fails w then Throw (Error ''query failed'') else Ret (), after_query w)"
proof (cases "db_script w")
  case Nil
  then have "w\<lparr>db_script := []\<rparr> = w" by (cases w) simp
  with Nil show ?thesis by (simp add: db_query_def query_fails_def after_query_def)
next
  case (Cons a rest)
  then show ?thesis by (cases a) (simp_all add: db_query_def query_fails_def after_query_def)
qed

lemma db_ok_query [simp]: "db_ok w \<Longrightarrow> \<not> query_fails w" "db_ok w \<Longrightarrow> after_query w = w"
proof -
  assume "db_ok w"
  then have e: "db_script w = []" by (simp add: db_ok_def)
  show "\<not> query_fails w" using e by (simp add: query_fails_def)
  have "w\<lparr>db_script := []\<rparr> = w" using e by (cases w) simp
  then show "after_query w = w" using e by (simp add: after_query_def)
qed

lemma db_ok_upd [simp]:
  "db_ok (w\<lparr>now := a\<rparr>) = db_ok w" "db_ok (w\<lparr>pidFile := b\<rparr>) = db_ok w"
  "db_ok (w\<lparr>disk_full := c\<rparr>) = db_ok w" "db_ok (w\<lparr>procs := d\<rparr>) = db_ok w"
  "db_ok (w\<lparr>spawn_script := e\<rparr>) = db_ok w" "db_ok (w\<lparr>settings := f\<rparr>) = db_ok w"
  "db_ok (w\<lparr>bot_token := g\<rparr>) = db_ok w" "db_ok (w\<lparr>hook := h\<rparr>) = db_ok w"
  "db_ok (w\<lparr>api_script := i\<rparr>) = db_ok w" "db_ok (w\<lparr>webhook_logs := j\<rparr>) = db_ok w"
  "db_ok (w\<lparr>restart_logs := k\<rparr>) = db_ok w" "db_ok (w\<lparr>alerts := l\<rparr>) = db_ok w"
  "db_ok (w\<lparr>calls := m\<rparr>) = db_ok w"
  by (simp_all add: db_ok_def)

lemma after_query_fields [simp]:
  "now (after_query w) = now w" "pidFile (after_query w) = pidFile w"
  "disk_full (after_query w) = disk_full w" "procs (after_query w) = procs w"
  "spawn_script (after_query w) = spawn_script w" "db_handle (after_query w) = db_handle w"
  "settings (after_query w) = settings w" "bot_token (after_query w) = bot_token w"
  "hook (after_query w) = hook w" "api_script (after_query w) = api_script w"
  "webhook_logs (after_query w) = webhook_logs w" "restart_logs (after_query w) = restart_logs w"
  "alerts (after_query w) = alerts w" "calls (after_query w) = calls w"
  "db_script (after_query w) = tl (db_script w)"
  by (simp_all add: after_query_def)

lemma db_ok_frame: "pm_frame w w' \<Longrightarrow> db_ok w' = db_ok w"
  by (simp add: pm_frame_def db_ok_def)

lemma insertWebhookStatusLog_eq:
  "insertWebhookStatusLog row w =
     (if \<not> db_handle w then (Ret (), w)
      else if query_fails w then (Throw (Error ''query failed''), after_query w)
      else (Ret (), (after_query w)\<lparr>webhook_logs := webhook_logs w @ [row]\<rparr>))"
  by (simp add: insertWebhookStatusLog_def getDb_def db_query_eq io_defs)

lemma insertGatewayRestartLog_eq:
  "insertGatewayRestartLog row w =
     (if \<not> db_handle w then (Ret (), w)
      else if query_fails w then (Throw (Error ''query failed''), after_query w)
      else (Ret (), (after_query w)\<lparr>restart_logs := restart_logs w @ [row (now w div 1000)]\<rparr>))"
  by (simp add: insertGatewayRestartLog_def getDb_def db_query_eq io_defs)

definition counted :: "int \<Rightarrow> GatewayRestartLog list \<Rightarrow> nat" where
  "counted t rows = length (filter (\<lambda>r. createdAt r * 1000 \<ge> t - 300000) rows)"

lemma getRecentRestartAttempts_eq:
  "getRecentRestartAttempts 5 w =
     (if \<not> db_handle w then (Ret 0, w)
      else if query_fails w then (Ret 0, after_query w)
      else (Ret (counted (now w) (restart_logs w)), after_query w))"
  by (simp add: getRecentRestartAttempts_def getDb_def db_query_eq io_defs date_now_def counted_def)

lemma getTelegramBotToken_eq:
  "getTelegramBotToken w =
     (if \<not> db_handle w then (Ret None, w)
      else if query_fails w then (Ret None, after_query w)
      else (Ret (str_or_null (bot_token w)), after_query w))"
  by (simp add: getTelegramBotToken_def getDb_def db_query_eq io_defs)

lemma select_setting_eq:
  "select_setting key w =
     (if query_fails w then (Throw (Error ''query failed''), after_query w)
      else (Ret (settings w key), after_query w))"
  by (simp add: select_setting_def db_query_eq io_defs)

lemma write_setting_eq:
  "write_setting key v w =
     (if query_fails w then (Throw (Error ''query failed''), after_query w)
      else (Ret (), (after_query w)\<lparr>settings := (settings w)(key \<mapsto> v)\<rparr>))"
  by (simp add: write_setting_def db_query_eq io_defs)

lemma getGatewaySetting_ok:
  "db_ok w \<Longrightarrow>
   getGatewaySetting key defaultValue w =
     (case settings w key of
        Some v \<Rightarrow> (Ret (Some v), w)
      | None \<Rightarrow>
          (case defaultValue of
             Some d \<Rightarrow> (Ret (Some d), w\<lparr>settings := (settings w)(key \<mapsto> d)\<rparr>)
           | None \<Rightarrow> (Ret None, w)))"
  by (simp add: getGatewaySetting_def getDb_def select_setting_eq write_setting_eq io_defs db_ok_def
        split: option.splits)

lemma setGatewaySetting_ok:
  "db_ok w \<Longrightarrow> setGatewaySetting key v w = (Ret (), w\<lparr>settings := (settings w)(key \<mapsto> v)\<rparr>)"
  by (simp add: setGatewaySetting_def getDb_def select_setting_eq write_setting_eq io_defs db_ok_def)

lemma insertWebhookStatusLog_ok:
  "db_ok w \<Longrightarrow> insertWebhookStatusLog row w = (Ret (), w\<lparr>webhook_logs := webhook_logs w @ [row]\<rparr>)"
  by (simp add: insertWebhookStatusLog_eq db_ok_def)

lemma insertGatewayRestartLog_ok:
  "db_ok w \<Longrightarrow>
   insertGatewayRestartLog row w =
     (Ret (), w\<lparr>restart_logs := restart_logs w @ [row (now w div 1000)]\<rparr>)"
  by (simp add: insertGatewayRestartLog_eq db_ok_def)

lemma getRecentRestartAttempts_ok:
  "db_ok w \<Longrightarrow> getRecentRestartAttempts 5 w = (Ret (counted (now w) (restart_logs w)), w)"
  by (simp add: getRecentRestartAttempts_eq db_ok_def)

text \<open>
  What the functions of \<^verbatim>\<open>db.ts\<close> leave alone: everything but the table they write
  and the list of coming queries, which can only get shorter.
\<close>

definition db_later :: "world \<Rightarrow> world \<Rightarrow> bool" where
  "db_later w w' \<longleftrightarrow> db_handle w' = db_handle w \<and> (\<exists>n. db_script w' = drop n (db_script w))"

lemma db_later_refl [simp]: "db_later w w"
  unfolding db_later_def by (auto intro: exI[of _ 0])

lemma db_later_trans: "db_later w w1 \<Longrightarrow> db_later w1 w2 \<Longrightarrow> db_later w w2"
  unfolding db_later_def by (auto simp: drop_drop)

lemma db_later_ok: "db_later w w' \<Longrightarrow> db_ok w \<Longrightarrow> db_ok w'"
  by (auto simp: db_later_def db_ok_def)

lemma db_later_query [simp]: "db_later w (after_query w)"
  unfolding db_later_def by (auto simp: drop_Suc intro: exI[of _ 1])

lemma db_later_upd [simp]:
  "db_later w (w'\<lparr>now := a\<rparr>) = db_later w w'" "db_later w (w'\<lparr>pidFile := b\<rparr>) = db_later w w'"
  "db_later w (w'\<lparr>procs := d\<rparr>) = db_later w w'"
  "db_later w (w'\<lparr>spawn_script := e\<rparr>) = db_later w w'"
  "db_later w (w'\<lparr>settings := f\<rparr>) = db_later w w'"
  "db_later w (w'\<lparr>hook := h\<rparr>) = db_later w w'"
  "db_later w (w'\<lparr>api_script := i\<rparr>) = db_later w w'"
  "db_later w (w'\<lparr>webhook_logs := j\<rparr>) = db_later w w'"
  "db_later w (w'\<lparr>restart_logs := k\<rparr>) = db_later w w'"
  "db_later w (w'\<lparr>alerts := l\<rparr>) = db_later w w'"
  "db_later w (w'\<lparr>calls := m\<rparr>) = db_later w w'"
  by (simp_all add: db_later_def)

lemma db_later_frame: "pm_frame w w' \<Longrightarrow> db_later w w'"
  unfolding pm_frame_def db_later_def by (auto intro: exI[of _ 0])

definition os_same :: "world \<Rightarrow> world \<Rightarrow> bool" where
  "os_same w w' \<longleftrightarrow>
     now w' = now w \<and> pidFile w' = pidFile w \<and> disk_full w' = disk_full w \<and>
     procs w' = procs w \<and> spawn_script w' = spawn_script w \<and> bot_token w' = bot_token w \<and>
     db_later w w'"

lemma os_same_refl [simp]: "os_same w w"
  by (simp add: os_same_def)

lemma os_same_trans: "os_same w w1 \<Longrightarrow> os_same w1 w2 \<Longrightarrow> os_same w w2"
  unfolding os_same_def by (auto intro: db_later_trans)

lemma getGatewaySetting_spec:
  "\<exists>v w'. getGatewaySetting key defaultValue w = (Ret v, w') \<and> os_same w w' \<and>
      hook w' = hook w \<and> api_script w' = api_script w \<and> webhook_logs w' = webhook_logs w \<and>
      restart_logs w' = restart_logs w \<and> alerts w' = alerts w \<and> calls w' = calls w \<and>
      (\<forall>k. k \<noteq> key \<longrightarrow> settings w' k = settings w k) \<and>
      (defaultValue = None \<longrightarrow> settings w' = settings w)"
proof -
  have l2: "db_later w (after_query (after_query w))"
    by (rule db_later_trans[of _ "after_query w"]) simp_all
  show ?thesis
    using l2
    by (auto simp: getGatewaySetting_def getDb_def select_setting_eq write_setting_eq io_defs
          os_same_def split: option.splits)
qed

lemma setGatewaySetting_spec:
  "\<exists>out w'. setGatewaySetting key v w = (out, w') \<and> os_same w w' \<and>
      hook w' = hook w \<and> api_script w' = api_script w \<and> webhook_logs w' = webhook_logs w \<and>
      restart_logs w' = restart_logs w \<and> alerts w' = alerts w \<and> calls w' = calls w"
proof -
  have l2: "db_later w (after_query (after_query w))"
    by (rule db_later_trans[of _ "after_query w"]) simp_all
  show ?thesis
    using l2
    by (auto simp: setGatewaySetting_def getDb_def select_setting_eq write_setting_eq io_defs
          os_same_def)
qed

subsection \<open>The poller\<close>

text \<open>
  \<open>token_read\<close> is the bot token that \<open>getBotToken\<close> obtains; \<open>answered\<close> says that the
  token is there and that the provider answers the next call with \<^verbatim>\<open>ok: true\<close>.
\<close>

definition token_read :: "world \<Rightarrow> string option" where
  "token_read w = (if db_handle w \<and> \<not> query_fails w then str_or_null (bot_token w) else None)"

definition token_world :: "world \<Rightarrow> world" where
  "token_world w = (if db_handle w then after_query w else w)"

lemma truthy_simps [simp]: "truthy None = False" "truthy (Some s) = (s \<noteq> [])"
  by (simp_all add: truthy_def)

lemma truthy_str_or_null [simp]: "truthy (str_or_null s) = truthy s"
  by (simp add: str_or_null_def)

lemma getBotToken_eq: "getBotToken w = (Ret (token_read w), token_world w)"
  by (simp add: getBotToken_def getTelegramBotToken_eq io_defs token_read_def token_world_def
        str_or_null_def)

lemma token_ok [simp]:
  "db_ok w \<Longrightarrow> token_read w = str_or_null (bot_token w)" "db_ok w \<Longrightarrow> token_world w = w"
proof -
  assume ok: "db_ok w"
  then have "db_handle w" by (simp add: db_ok_def)
  then show "token_read w = str_or_null (bot_token w)" "token_world w = w"
    using ok by (simp_all add: token_read_def token_world_def)
qed

lemma token_calls [simp]:
  "token_read (w\<lparr>calls := c\<rparr>) = token_read w"
  "token_world (w\<lparr>calls := c\<rparr>) = (token_world w)\<lparr>calls := c\<rparr>"
  by (simp_all add: token_read_def token_world_def query_fails_def after_query_def)

lemma token_world_fields [simp]:
  "now (token_world w) = now w" "pidFile (token_world w) = pidFile w"
  "disk_full (token_world w) = disk_full w" "procs (token_world w) = procs w"
  "spawn_script (token_world w) = spawn_script w" "db_handle (token_world w) = db_handle w"
  "settings (token_world w) = settings w" "bot_token (token_world w) = bot_token w"
  "hook (token_world w) = hook w" "api_script (token_world w) = api_script w"
  "webhook_logs (token_world w) = webhook_logs w" "restart_logs (token_world w) = restart_logs w"
  "alerts (token_world w) = alerts w" "calls (token_world w) = calls w"
  "db_later w (token_world w)"
  by (simp_all add: token_world_def)

definition answered :: "world \<Rightarrow> bool" where
  "answered w \<longleftrightarrow> truthy (token_read w) \<and> (\<exists>rest. api_script w = ApiOk # rest)"

definition seen_active :: "world \<Rightarrow> bool" where
  "seen_active w \<longleftrightarrow> (\<exists>st w1. checkWebhookStatus w = (Ret st, w1) \<and> isActive st)"

definition same_store :: "world \<Rightarrow> world \<Rightarrow> bool" where
  "same_store w w' \<longleftrightarrow>
     now w' = now w \<and> pidFile w' = pidFile w \<and> disk_full w' = disk_full w \<and>
     procs w' = procs w \<and> spawn_script w' = spawn_script w \<and> settings w' = settings w \<and>
     bot_token w' = bot_token w \<and> webhook_logs w' = webhook_logs w \<and>
     restart_logs w' = restart_logs w \<and> alerts w' = alerts w \<and> db_later w w'"

lemma same_store_ok: "same_store w w' \<Longrightarrow> db_ok w \<Longrightarrow> db_ok w'"
  by (auto simp: same_store_def intro: db_later_ok)

lemma checkWebhookStatus_spec:
  "\<exists>st w1. checkWebhookStatus w = (Ret st, w1) \<and> same_store w w1 \<and>
       hook w1 = hook w \<and> calls w1 = calls w \<and>
       (answered w \<longrightarrow>
          st = \<lparr>isActive = (url (hook w) \<noteq> [] \<and>
                             (falsy (last_error_date (hook w)) \<or> pending_update_count (hook w) = 0)),
                status_url = (if url (hook w) = [] then None else Some (url (hook w))),
                pendingUpdateCount = pending_update_count (hook w),
                lastErrorDate = last_error_date (hook w),
                lastErrorMessage = last_error_message (hook w)\<rparr>) \<and>
       (\<not> answered w \<longrightarrow>
          \<not> isActive st \<and> status_url st = None \<and> pendingUpdateCount st = 0 \<and>
          lastErrorDate st = None)"
proof (cases "truthy (token_read w)")
  case False
  then show ?thesis
    by (simp add: checkWebhookStatus_def getBotToken_eq io_defs answered_def same_store_def)
next
  case True
  show ?thesis
  proof (cases "api_script w")
    case Nil
    with True show ?thesis
      by (simp add: checkWebhookStatus_def getBotToken_eq io_defs answered_def
            fetch_getWebhookInfo_def fetch_def same_store_def)
  next
    case (Cons a rest)
    with True show ?thesis
      by (cases a)
         (simp_all add: checkWebhookStatus_def getBotToken_eq io_defs answered_def
            fetch_getWebhookInfo_def fetch_def str_or_null_def same_store_def)
  qed
qed

lemma fetch_spec:
  "\<exists>out w'. fetch eff w = (out, w') \<and> same_store w w' \<and> calls w' = calls w \<and>
      db_script w' = db_script w \<and>
      ((\<exists>rest. api_script w = ApiOk # rest) \<longrightarrow> out = Ret (Body True None (eff (hook w))) \<and>
          hook w' = eff (hook w)) \<and>
      (\<not> (\<exists>rest. api_script w = ApiOk # rest) \<longrightarrow> hook w' = hook w \<and>
          (\<forall>d i. out \<noteq> Ret (Body True d i)))"
proof (cases "api_script w")
  case Nil
  then show ?thesis by (simp add: fetch_def same_store_def)
next
  case (Cons a rest)
  then show ?thesis by (cases a) (simp_all add: fetch_def same_store_def)
qed

lemma same_store_trans: "same_store w w1 \<Longrightarrow> same_store w1 w2 \<Longrightarrow> same_store w w2"
  unfolding same_store_def by (auto intro: db_later_trans)

lemma same_store_token [simp]: "same_store w (token_world w)"
  by (simp add: same_store_def)

lemma same_store_calls [simp]: "same_store w (w'\<lparr>calls := c\<rparr>) = same_store w w'"
  by (simp add: same_store_def)

lemma same_store_calls_left [simp]: "same_store (w\<lparr>calls := c\<rparr>) w' = same_store w w'"
  by (simp add: same_store_def db_later_def)

lemma read_url_spec:
  "\<exists>v w'. getGatewaySetting ''production_webhook_url'' None w = (Ret v, w') \<and> same_store w w' \<and>
      hook w' = hook w \<and> api_script w' = api_script w \<and> calls w' = calls w"
proof -
  obtain v w' where "getGatewaySetting ''production_webhook_url'' None w = (Ret v, w')"
    "os_same w w'" "hook w' = hook w" "api_script w' = api_script w"
    "webhook_logs w' = webhook_logs w" "restart_logs w' = restart_logs w" "alerts w' = alerts w"
    "calls w' = calls w" "settings w' = settings w"
    using getGatewaySetting_spec[of "''production_webhook_url''" None w] by auto
  then show ?thesis by (auto simp: same_store_def os_same_def)
qed

lemma resetWebhook_spec:
  "\<exists>w'. resetWebhook w = (Ret (), w') \<and> same_store w w' \<and>
        calls w' = calls w @ [CallResetWebhook]"
proof -
  define w0 where "w0 = w\<lparr>calls := calls w @ [CallResetWebhook]\<rparr>"
  obtain v w1 where rd: "getGatewaySetting ''production_webhook_url'' None w0 = (Ret v, w1)"
    and s1: "same_store w0 w1" and c1: "calls w1 = calls w0"
    using read_url_spec[of w0] by blast
  have s01: "same_store w w1" using s1 by (simp add: w0_def)
  define w2 where "w2 = token_world w1"
  have s2: "same_store w w2" "calls w2 = calls w0"
    using same_store_trans[OF s01 same_store_token[of w1]] c1 by (simp_all add: w2_def)
  obtain out w3 where f: "fetch (\<lambda>h. h\<lparr>url := str_or v []\<rparr>) w2 = (out, w3)"
    and s3: "same_store w2 w3" and c3: "calls w3 = calls w2"
    using fetch_spec[of "\<lambda>h. h\<lparr>url := str_or v []\<rparr>" w2] by blast
  have s03: "same_store w w3" using s2(1) s3 by (rule same_store_trans)
  show ?thesis
  proof (cases "truthy v \<and> truthy (token_read w1)")
    case False
    then show ?thesis
      using rd[unfolded w0_def] s01 s2 c1
      by (auto simp: resetWebhook_def getBotToken_eq io_defs entered_def w2_def w0_def)
  next
    case True
    then show ?thesis
      using rd[unfolded w0_def] f[unfolded w2_def] s03 c3 s2(2)
      by (cases out)
         (auto simp: resetWebhook_def getBotToken_eq io_defs entered_def fetch_setWebhook_def
            w0_def split: response.splits)
  qed
qed



subsection \<open>The cycle, taken apart\<close>

text \<open>
  \<open>checkAndRestart\<close> is \<open>decide\<close> followed by \<open>attemptRestart\<close>: \<open>observe\<close> is the method up
  to its first row in the webhook log, \<open>rate_check\<close> the part from the count of recent
  attempts to the alert, and \<open>decide\<close> the whole of it up to the comment
  \<^verbatim>\<open>// Attempt restart\<close>; it yields the webhook status when the restart is to be
  attempted and nothing when the method has returned before.
\<close>

definition observe :: "webhook_status io" where
  "observe =
     io_bind date_now (\<lambda>startTime.
     io_bind checkWebhookStatus (\<lambda>webhookStatus.
     io_bind date_now (\<lambda>endTime.
     io_bind date_now (\<lambda>t0.
     io_bind (insertWebhookStatusLog
                \<lparr>checkTimestamp = t0,
                 webhookUrl = str_or_null (status_url webhookStatus),
                 log_isActive = isActive webhookStatus,
                 log_pendingUpdateCount = pendingUpdateCount webhookStatus,
                 log_lastErrorDate = num_or_null (lastErrorDate webhookStatus),
                 log_lastErrorMessage = str_or_null (lastErrorMessage webhookStatus),
                 responseTimeMs = endTime - startTime,
                 actionTaken = ActNone\<rparr>) (\<lambda>_.
     io_return webhookStatus)))))"

definition rate_check :: "webhook_status \<Rightarrow> webhook_status option io" where
  "rate_check webhookStatus =
     io_bind (getRecentRestartAttempts 5) (\<lambda>recentAttempts.
     io_bind (getGatewaySetting ''max_restart_attempts'' (Some ''3'')) (\<lambda>maxSetting.
     if ge_num recentAttempts (parseInt (str_or maxSetting ''3'')) then
       io_bind (notifyOwner (WebhookKeepsFailing recentAttempts)) (\<lambda>_.
       io_bind date_now (\<lambda>t1.
       io_bind (insertWebhookStatusLog
                  \<lparr>checkTimestamp = t1,
                   webhookUrl = str_or_null (status_url webhookStatus),
                   log_isActive = False,
                   log_pendingUpdateCount = pendingUpdateCount webhookStatus,
                   log_lastErrorDate = num_or_null (lastErrorDate webhookStatus),
                   log_lastErrorMessage = Some ''Max restart attempts reached'',
                   responseTimeMs = 0,
                   actionTaken = ActAlert\<rparr>) (\<lambda>_.
       io_return None)))
     else io_return (Some webhookStatus)))"

definition decide :: "webhook_status option io" where
  "decide =
     io_bind observe (\<lambda>webhookStatus.
     if \<not> isActive webhookStatus then
       io_bind (getGatewaySetting ''auto_restart_enabled'' (Some ''true'')) (\<lambda>setting.
       if \<not> (setting = Some ''true'') then io_return None
       else rate_check webhookStatus)
     else io_return None)"

lemma io_bind_assoc: "io_bind (io_bind m f) g = io_bind m (\<lambda>x. io_bind (f x) g)"
  by (auto simp: io_bind_def fun_eq_iff split: prod.splits outcome.splits)

lemma io_bind_return: "io_bind (io_return x) f = f x"
  by (simp add: io_bind_def io_return_def fun_eq_iff)

lemma io_bind_return_right: "io_bind m io_return = m"
  by (auto simp: io_bind_def io_return_def fun_eq_iff split: prod.splits outcome.splits)

lemma io_bind_if: "io_bind (if c then a else b) g = (if c then io_bind a g else io_bind b g)"
  by simp

lemma checkAndRestart_decide:
  "checkAndRestart =
     try_catch
       (io_bind decide (\<lambda>d. case d of None \<Rightarrow> io_return () | Some st \<Rightarrow> attemptRestart st))
       (\<lambda>error. io_return ())"
  by (simp add: checkAndRestart_def decide_def observe_def rate_check_def io_bind_assoc
        io_bind_return io_bind_return_right io_bind_if cong: if_cong)

lemma checkAndRestart_unfold:
  "checkAndRestart w =
     (case decide w of
        (Throw e, w2) \<Rightarrow> (Ret (), w2)
      | (Ret None, w2) \<Rightarrow> (Ret (), w2)
      | (Ret (Some st), w2) \<Rightarrow> (Ret (), snd (attemptRestart st w2)))"
  by (simp add: checkAndRestart_decide io_defs split: prod.splits outcome.splits option.splits)

definition auto_restart_enabled :: "world \<Rightarrow> bool" where
  "auto_restart_enabled w \<longleftrightarrow>
     settings w ''auto_restart_enabled'' = None \<or> settings w ''auto_restart_enabled'' = Some ''true''"

definition max_attempts :: "world \<Rightarrow> int option" where
  "max_attempts w = parseInt (str_or (settings w ''max_restart_attempts'') ''3'')"

definition recent_attempts :: "world \<Rightarrow> nat" where
  "recent_attempts w = counted (now w) (restart_logs w)"

definition first_row :: "webhook_status \<Rightarrow> int \<Rightarrow> WebhookStatusLog" where
  "first_row st t =
     \<lparr>checkTimestamp = t, webhookUrl = str_or_null (status_url st), log_isActive = isActive st,
      log_pendingUpdateCount = pendingUpdateCount st,
      log_lastErrorDate = num_or_null (lastErrorDate st),
      log_lastErrorMessage = str_or_null (lastErrorMessage st),
      responseTimeMs = 0, actionTaken = ActNone\<rparr>"

lemma seen_active_iff: "checkWebhookStatus w = (Ret st, w1) \<Longrightarrow> seen_active w \<longleftrightarrow> isActive st"
  by (simp add: seen_active_def)

lemma str_or_default [simp]:
  "str_or (Some d) d = d" "str_or None d = d"
  by (simp_all add: str_or_def)

lemma observe_eq:
  assumes "checkWebhookStatus w = (Ret st, w1)" and "now w1 = now w"
  shows "observe w =
           (case insertWebhookStatusLog (first_row st (now w)) w1 of
              (Ret u, w2) \<Rightarrow> (Ret st, w2) | (Throw e, w2) \<Rightarrow> (Throw e, w2))"
  using assms
  by (simp add: observe_def io_defs date_now_def first_row_def split: prod.splits outcome.splits)

subsection \<open>The decision when the database works\<close>

definition quiet_frame :: "world \<Rightarrow> world \<Rightarrow> bool" where
  "quiet_frame w w' \<longleftrightarrow>
     now w' = now w \<and> procs w' = procs w \<and> pidFile w' = pidFile w \<and>
     disk_full w' = disk_full w \<and> spawn_script w' = spawn_script w \<and> hook w' = hook w \<and>
     bot_token w' = bot_token w \<and> restart_logs w' = restart_logs w \<and>
     db_handle w' = db_handle w"

lemma observe_ok:
  assumes "db_ok w"
  shows "\<exists>st w1. checkWebhookStatus w = (Ret st, w1) \<and> same_store w w1 \<and> hook w1 = hook w \<and>
           calls w1 = calls w \<and> db_ok w1 \<and>
           observe w = (Ret st, w1\<lparr>webhook_logs := webhook_logs w @ [first_row st (now w)]\<rparr>)"
proof -
  obtain st w1 where chk: "checkWebhookStatus w = (Ret st, w1)" and st: "same_store w w1"
    and h1: "hook w1 = hook w" and c1: "calls w1 = calls w"
    using checkWebhookStatus_spec[of w] by blast
  have ok1: "db_ok w1" using st assms by (rule same_store_ok)
  have t1: "now w1 = now w" "webhook_logs w1 = webhook_logs w"
    using st by (simp_all add: same_store_def)
  show ?thesis
    using chk st h1 c1 ok1 t1 by (simp add: observe_eq[OF chk t1(1)] insertWebhookStatusLog_ok)
qed

lemma decide_quiet:
  assumes "db_ok w" and "seen_active w \<or> \<not> auto_restart_enabled w"
  shows "\<exists>st w1 w2. checkWebhookStatus w = (Ret st, w1) \<and> decide w = (Ret None, w2) \<and>
           db_ok w2 \<and> quiet_frame w w2 \<and>
           max_attempts w2 = max_attempts w \<and> auto_restart_enabled w2 = auto_restart_enabled w \<and>
           webhook_logs w2 = webhook_logs w @ [first_row st (now w)] \<and>
           alerts w2 = alerts w \<and> calls w2 = calls w"
proof -
  obtain st w1 where chk: "checkWebhookStatus w = (Ret st, w1)" and st: "same_store w w1"
    and h1: "hook w1 = hook w" and c1: "calls w1 = calls w" and ok1: "db_ok w1"
    and ob: "observe w = (Ret st, w1\<lparr>webhook_logs := webhook_logs w @ [first_row st (now w)]\<rparr>)"
    using observe_ok[OF assms(1)] by blast
  have act: "seen_active w \<longleftrightarrow> isActive st" using chk by (rule seen_active_iff)
  show ?thesis
  proof (cases "isActive st")
    case True
    then show ?thesis
      using chk st h1 c1 ok1 ob assms(1)
      by (simp add: decide_def io_defs same_store_def quiet_frame_def max_attempts_def
            auto_restart_enabled_def db_ok_def)
  next
    case False
    with assms(2) act have off: "\<not> auto_restart_enabled w" by simp
    then obtain v where v: "settings w ''auto_restart_enabled'' = Some v" "v \<noteq> ''true''"
      by (auto simp: auto_restart_enabled_def)
    have v1: "settings w1 ''auto_restart_enabled'' = Some v"
      using v st by (simp add: same_store_def)
    show ?thesis
      using False chk st h1 c1 ok1 ob v v1 assms(1)
      by (simp add: decide_def io_defs getGatewaySetting_ok same_store_def quiet_frame_def
            max_attempts_def auto_restart_enabled_def db_ok_def[of w] db_ok_def[of w1])
  qed
qed

lemma decide_alert:
  assumes "db_ok w" and "\<not> seen_active w" and "auto_restart_enabled w"
    and "ge_num (recent_attempts w) (max_attempts w)"
  shows "\<exists>st w1 w2 row1. checkWebhookStatus w = (Ret st, w1) \<and> decide w = (Ret None, w2) \<and>
           db_ok w2 \<and> quiet_frame w w2 \<and>
           max_attempts w2 = max_attempts w \<and> auto_restart_enabled w2 = auto_restart_enabled w \<and>
           actionTaken row1 = ActAlert \<and>
           webhook_logs w2 = webhook_logs w @ [first_row st (now w), row1] \<and>
           alerts w2 = alerts w @ [WebhookKeepsFailing (recent_attempts w)] \<and>
           calls w2 = calls w @ [CallNotify]"
proof -
  obtain st w1 where chk: "checkWebhookStatus w = (Ret st, w1)" and st: "same_store w w1"
    and h1: "hook w1 = hook w" and c1: "calls w1 = calls w" and ok1: "db_ok w1"
    and ob: "observe w = (Ret st, w1\<lparr>webhook_logs := webhook_logs w @ [first_row st (now w)]\<rparr>)"
    using observe_ok[OF assms(1)] by blast
  have act: "\<not> isActive st" using chk assms(2) by (simp add: seen_active_iff)
  have f1: "settings w1 = settings w" "now w1 = now w" "restart_logs w1 = restart_logs w"
    using st by (simp_all add: same_store_def)
  have ge: "ge_num (counted (now w) (restart_logs w))
              (parseInt (str_or (settings w ''max_restart_attempts'') ''3''))"
    using assms(4) by (simp add: recent_attempts_def max_attempts_def)
  show ?thesis
    using act chk st h1 c1 ok1 ob assms(1,3) ge f1
    by (cases "settings w ''auto_restart_enabled''"; cases "settings w ''max_restart_attempts''")
       (simp_all add: decide_def rate_check_def io_defs date_now_def insertWebhookStatusLog_ok
          getGatewaySetting_ok getRecentRestartAttempts_ok notifyOwner_def entered_def
          same_store_def quiet_frame_def max_attempts_def auto_restart_enabled_def
          recent_attempts_def db_ok_def[of w] db_ok_def[of w1])
qed

lemma decide_restart:
  assumes "db_ok w" and "\<not> seen_active w" and "auto_restart_enabled w"
    and "\<not> ge_num (recent_attempts w) (max_attempts w)"
  shows "\<exists>st w1 w2. checkWebhookStatus w = (Ret st, w1) \<and> decide w = (Ret (Some st), w2) \<and>
           db_ok w2 \<and> quiet_frame w w2 \<and>
           max_attempts w2 = max_attempts w \<and> auto_restart_enabled w2 = auto_restart_enabled w \<and>
           webhook_logs w2 = webhook_logs w @ [first_row st (now w)] \<and>
           alerts w2 = alerts w \<and> calls w2 = calls w"
proof -
  obtain st w1 where chk: "checkWebhookStatus w = (Ret st, w1)" and st: "same_store w w1"
    and h1: "hook w1 = hook w" and c1: "calls w1 = calls w" and ok1: "db_ok w1"
    and ob: "observe w = (Ret st, w1\<lparr>webhook_logs := webhook_logs w @ [first_row st (now w)]\<rparr>)"
    using observe_ok[OF assms(1)] by blast
  have act: "\<not> isActive st" using chk assms(2) by (simp add: seen_active_iff)
  have f1: "settings w1 = settings w" "now w1 = now w" "restart_logs w1 = restart_logs w"
    using st by (simp_all add: same_store_def)
  have ge: "\<not> ge_num (counted (now w) (restart_logs w))
              (parseInt (str_or (settings w ''max_restart_attempts'') ''3''))"
    using assms(4) by (simp add: recent_attempts_def max_attempts_def)
  show ?thesis
    using act chk st h1 c1 ok1 ob assms(1,3) ge f1
    by (cases "settings w ''auto_restart_enabled''"; cases "settings w ''max_restart_attempts''")
       (simp_all add: decide_def rate_check_def io_defs date_now_def
          getGatewaySetting_ok getRecentRestartAttempts_ok
          same_store_def quiet_frame_def max_attempts_def auto_restart_enabled_def
          recent_attempts_def db_ok_def[of w] db_ok_def[of w1])
qed

subsection \<open>The restart attempt\<close>

lemma stamp_bounds: "t div 1000 * 1000 \<le> t" "t - 1000 < t div 1000 * 1000" for t :: int
  by (simp_all add: algebra_simps)

lemma attemptRestart_spec:
  assumes "db_ok w"
  shows "\<exists>w' rec cs. attemptRestart st w = (Ret (), w') \<and> db_ok w' \<and>
      restart_logs w' = restart_logs w @ [rec] \<and> triggerType rec = Webhook_check \<and>
      now w - 1000 < createdAt rec * 1000 \<and> createdAt rec * 1000 \<le> now w' \<and>
      now w \<le> now w' \<and>
      alerts w' = alerts w \<and> settings w' = settings w \<and> bot_token w' = bot_token w \<and>
      calls w' = calls w @ CallRestart # cs \<and>
      set cs \<subseteq> {CallStart, CallStop, CallResetWebhook} \<and>
      (if log_success rec
       then \<exists>row1. actionTaken row1 = ActRestart \<and> webhook_logs w' = webhook_logs w @ [row1]
       else webhook_logs w' = webhook_logs w \<and> hook w' = hook w \<and> api_script w' = api_script w)"
proof -
  obtain r w5 where rs: "restart (Some ''webhook_check'') w = (Ret r, w5)"
    and fr: "pm_frame (w\<lparr>calls := calls w @ [CallRestart]\<rparr>) w5"
    using restart_cases[of "Some ''webhook_check''" w] by blast
  from fr obtain cs where cs: "calls w5 = calls w @ CallRestart # cs" "set cs \<subseteq> {CallStart, CallStop}"
    by (auto simp: pm_frame_def)
  have f5: "settings w5 = settings w" "bot_token w5 = bot_token w" "hook w5 = hook w"
    "api_script w5 = api_script w" "webhook_logs w5 = webhook_logs w"
    "restart_logs w5 = restart_logs w" "alerts w5 = alerts w" "now w \<le> now w5"
    using fr by (simp_all add: pm_frame_def)
  have ok5: "db_ok w5" using db_ok_frame[OF fr] assms by simp
  have st5: "now w - 1000 < now w5 div 1000 * 1000" "now w5 div 1000 * 1000 \<le> now w5"
    using stamp_bounds[of "now w5"] f5(8) by simp_all
  show ?thesis
  proof (cases "success r")
    case False
    then show ?thesis
      using rs cs f5 ok5 st5
      by (auto simp: attemptRestart_def io_defs insertGatewayRestartLog_ok)
  next
    case True
    define w7 where "w7 = w5\<lparr>restart_logs := restart_logs w5 @
        [\<lparr>triggerType = Webhook_check, triggerUserId = None,
          reason = ''Webhook inactive: '' @ str_or (lastErrorMessage st) ''No error message'',
          log_oldPid = num_or_null (oldPid r), log_newPid = num_or_null (newPid r),
          log_success = success r, errorMessage = str_or_null (error r),
          durationMs = duration r, createdAt = now w5 div 1000\<rparr>], now := now w5 + 5000\<rparr>"
    obtain w8 where rw: "resetWebhook w7 = (Ret (), w8)" and s8: "same_store w7 w8"
      and c8: "calls w8 = calls w7 @ [CallResetWebhook]"
      using resetWebhook_spec[of w7] by blast
    have ok7: "db_ok w7" using ok5 by (simp add: w7_def)
    have ok8: "db_ok w8" using s8 ok7 by (rule same_store_ok)
    have step: "attemptRestart st w =
       (Ret (), w8\<lparr>webhook_logs := webhook_logs w8 @
          [\<lparr>checkTimestamp = now w8, webhookUrl = str_or_null (status_url st),
            log_isActive = False, log_pendingUpdateCount = pendingUpdateCount st,
            log_lastErrorDate = num_or_null (lastErrorDate st),
            log_lastErrorMessage = Some ''Restarted Gateway'',
            responseTimeMs = duration r, actionTaken = ActRestart\<rparr>]\<rparr>)"
      using True rs rw[unfolded w7_def] ok5 ok8
      by (simp add: attemptRestart_def io_defs insertGatewayRestartLog_ok sleep_def date_now_def
            insertWebhookStatusLog_ok)
    show ?thesis
      unfolding step
      using True cs f5 s8 c8 ok8 st5
      by (auto simp: same_store_def w7_def)
  qed
qed

lemma attemptRestart_any:
  "\<exists>out w'. attemptRestart st w = (out, w') \<and> db_handle w' = db_handle w \<and>
      (webhook_logs w' = webhook_logs w \<or>
       db_handle w \<and> (\<exists>row. actionTaken row = ActRestart \<and>
                              webhook_logs w' = webhook_logs w @ [row]))"
proof -
  obtain r w5 where rs: "restart (Some ''webhook_check'') w = (Ret r, w5)"
    and fr: "pm_frame (w\<lparr>calls := calls w @ [CallRestart]\<rparr>) w5"
    using restart_cases[of "Some ''webhook_check''" w] by blast
  have f5: "webhook_logs w5 = webhook_logs w" "db_handle w5 = db_handle w"
    using fr by (simp_all add: pm_frame_def)
  define row where "row = (\<lambda>t.
        \<lparr>triggerType = Webhook_check, triggerUserId = None,
          reason = ''Webhook inactive: '' @ str_or (lastErrorMessage st) ''No error message'',
          log_oldPid = num_or_null (oldPid r), log_newPid = num_or_null (newPid r),
          log_success = success r, errorMessage = str_or_null (error r),
          durationMs = duration r, createdAt = t\<rparr>)"
  obtain o6 w6 where ins: "insertGatewayRestartLog row w5 = (o6, w6)"
    by (cases "insertGatewayRestartLog row w5")
  have f6: "webhook_logs w6 = webhook_logs w" "db_handle w6 = db_handle w"
    using ins f5 by (auto simp: insertGatewayRestartLog_eq split: if_splits)
  show ?thesis
  proof (cases "success r \<and> o6 = Ret ()")
    case False
    then show ?thesis
      using rs ins[unfolded row_def] f6
      by (cases o6) (auto simp: attemptRestart_def io_defs)
  next
    case True
    define w7 where "w7 = w6\<lparr>now := now w6 + 5000\<rparr>"
    obtain w8 where rw: "resetWebhook w7 = (Ret (), w8)" and s8: "same_store w7 w8"
      using resetWebhook_spec[of w7] by blast
    have f8: "webhook_logs w8 = webhook_logs w" "db_handle w8 = db_handle w"
      using s8 f6 by (simp_all add: same_store_def db_later_def w7_def)
    define row1 where "row1 =
          \<lparr>checkTimestamp = now w8, webhookUrl = str_or_null (status_url st),
            log_isActive = False, log_pendingUpdateCount = pendingUpdateCount st,
            log_lastErrorDate = num_or_null (lastErrorDate st),
            log_lastErrorMessage = Some ''Restarted Gateway'',
            responseTimeMs = duration r, actionTaken = ActRestart\<rparr>"
    have step: "attemptRestart st w = insertWebhookStatusLog row1 w8"
      using True rs ins[unfolded row_def] rw[unfolded w7_def]
      by (simp add: attemptRestart_def io_defs sleep_def date_now_def row1_def)
    have "actionTaken row1 = ActRestart" by (simp add: row1_def)
    then show ?thesis
      unfolding step using f8
      by (auto simp: insertWebhookStatusLog_eq)
  qed
qed

subsection \<open>One cycle when the database works\<close>

lemma cycle_quiet:
  assumes "db_ok w" and "seen_active w \<or> \<not> auto_restart_enabled w"
  shows "\<exists>st w1 w'. checkWebhookStatus w = (Ret st, w1) \<and> checkAndRestart w = (Ret (), w') \<and>
           db_ok w' \<and> quiet_frame w w' \<and>
           webhook_logs w' = webhook_logs w @ [first_row st (now w)] \<and>
           alerts w' = alerts w \<and> calls w' = calls w \<and>
           max_attempts w' = max_attempts w \<and> auto_restart_enabled w' = auto_restart_enabled w"
  using decide_quiet[OF assms] by (auto simp: checkAndRestart_unfold)

lemma cycle_alert:
  assumes "db_ok w" and "\<not> seen_active w" and "auto_restart_enabled w"
    and "ge_num (recent_attempts w) (max_attempts w)"
  shows "\<exists>st w1 w' row1. checkWebhookStatus w = (Ret st, w1) \<and> checkAndRestart w = (Ret (), w') \<and>
           db_ok w' \<and> quiet_frame w w' \<and>
           actionTaken row1 = ActAlert \<and>
           webhook_logs w' = webhook_logs w @ [first_row st (now w), row1] \<and>
           alerts w' = alerts w @ [WebhookKeepsFailing (recent_attempts w)] \<and>
           calls w' = calls w @ [CallNotify] \<and>
           max_attempts w' = max_attempts w \<and> auto_restart_enabled w' = auto_restart_enabled w"
  using decide_alert[OF assms] by (auto simp: checkAndRestart_unfold)

lemma cycle_restart:
  assumes "db_ok w" and "\<not> seen_active w" and "auto_restart_enabled w"
    and "\<not> ge_num (recent_attempts w) (max_attempts w)"
  shows "\<exists>st w1 w' rec cs. checkWebhookStatus w = (Ret st, w1) \<and> checkAndRestart w = (Ret (), w') \<and>
           db_ok w' \<and>
           restart_logs w' = restart_logs w @ [rec] \<and> triggerType rec = Webhook_check \<and>
           now w - 1000 < createdAt rec * 1000 \<and> createdAt rec * 1000 \<le> now w' \<and>
           now w \<le> now w' \<and>
           alerts w' = alerts w \<and> bot_token w' = bot_token w \<and>
           max_attempts w' = max_attempts w \<and> auto_restart_enabled w' = auto_restart_enabled w \<and>
           calls w' = calls w @ CallRestart # cs \<and>
           set cs \<subseteq> {CallStart, CallStop, CallResetWebhook} \<and>
           (if log_success rec
            then \<exists>row1. actionTaken row1 = ActRestart \<and>
                   webhook_logs w' = webhook_logs w @ [first_row st (now w), row1]
            else webhook_logs w' = webhook_logs w @ [first_row st (now w)])"
proof -
  from decide_restart[OF assms] obtain st w1 w2 where
    chk: "checkWebhookStatus w = (Ret st, w1)" and de: "decide w = (Ret (Some st), w2)"
    and ok2: "db_ok w2" and q: "quiet_frame w w2"
    and set2: "max_attempts w2 = max_attempts w" "auto_restart_enabled w2 = auto_restart_enabled w"
    and l2: "webhook_logs w2 = webhook_logs w @ [first_row st (now w)]"
    and a2: "alerts w2 = alerts w" "calls w2 = calls w"
    by blast
  obtain w' rec cs where ar: "attemptRestart st w2 = (Ret (), w')" and ok': "db_ok w'"
    and post: "restart_logs w' = restart_logs w2 @ [rec]" "triggerType rec = Webhook_check"
      "now w2 - 1000 < createdAt rec * 1000" "createdAt rec * 1000 \<le> now w'" "now w2 \<le> now w'"
      "alerts w' = alerts w2" "settings w' = settings w2" "bot_token w' = bot_token w2"
      "calls w' = calls w2 @ CallRestart # cs"
      "set cs \<subseteq> {CallStart, CallStop, CallResetWebhook}"
      "if log_success rec
       then \<exists>row1. actionTaken row1 = ActRestart \<and> webhook_logs w' = webhook_logs w2 @ [row1]
       else webhook_logs w' = webhook_logs w2 \<and> hook w' = hook w2 \<and> api_script w' = api_script w2"
    using attemptRestart_spec[OF ok2, of st] by blast
  have run: "checkAndRestart w = (Ret (), w')"
    using de ar by (simp add: checkAndRestart_unfold)
  have set': "max_attempts w' = max_attempts w" "auto_restart_enabled w' = auto_restart_enabled w"
    using set2 post(7) by (simp_all add: max_attempts_def auto_restart_enabled_def)
  have q2: "now w2 = now w" "restart_logs w2 = restart_logs w" "bot_token w2 = bot_token w"
    using q by (simp_all add: quiet_frame_def)
  show ?thesis
    using chk run ok' post set' q2 l2 a2
    by (cases "log_success rec") auto
qed

subsection \<open>One cycle, whatever the database does\<close>

text \<open>
  \<open>auto_restart_read\<close> is the value to which the setting \<open>auto_restart_enabled\<close> resolves
  in a cycle: what \<open>getGatewaySetting\<close> returns at the point where the cycle calls it (the
  stored value, or the default \<open>true\<close> when nothing is stored, when there is no database
  handle, or when the query fails).
\<close>

definition auto_restart_read :: "world \<Rightarrow> string option" where
  "auto_restart_read w =
     (case observe w of
        (Ret st, w2) \<Rightarrow>
          (case getGatewaySetting ''auto_restart_enabled'' (Some ''true'') w2 of
             (Ret v, w3) \<Rightarrow> v
           | (Throw e, w3) \<Rightarrow> None)
      | (Throw e, w2) \<Rightarrow> None)"

definition only_db :: "world \<Rightarrow> world \<Rightarrow> bool" where
  "only_db w w' \<longleftrightarrow>
     os_same w w' \<and> hook w' = hook w \<and> restart_logs w' = restart_logs w \<and>
     alerts w' = alerts w \<and> calls w' = calls w"

lemma only_db_refl [simp]: "only_db w w"
  by (simp add: only_db_def)

lemma only_db_trans: "only_db w w1 \<Longrightarrow> only_db w1 w2 \<Longrightarrow> only_db w w2"
  unfolding only_db_def by (auto intro: os_same_trans)

lemma only_db_handle: "only_db w w' \<Longrightarrow> db_handle w' = db_handle w"
  by (simp add: only_db_def os_same_def db_later_def)

lemma only_db_quiet: "only_db w w' \<Longrightarrow> quiet_frame w w'"
  by (simp add: only_db_def os_same_def quiet_frame_def db_later_def)

lemma insertWebhookStatusLog_spec:
  "\<exists>out w'. insertWebhookStatusLog row w = (out, w') \<and> only_db w w' \<and>
      (if out = Ret () \<and> db_handle w then webhook_logs w' = webhook_logs w @ [row]
       else webhook_logs w' = webhook_logs w)"
  by (simp add: insertWebhookStatusLog_eq only_db_def os_same_def)

lemma getRecentRestartAttempts_spec:
  "\<exists>n w'. getRecentRestartAttempts 5 w = (Ret n, w') \<and> only_db w w' \<and>
      webhook_logs w' = webhook_logs w"
  by (simp add: getRecentRestartAttempts_eq only_db_def os_same_def)

lemma setting_read_spec:
  "\<exists>v w'. getGatewaySetting key defaultValue w = (Ret v, w') \<and> only_db w w' \<and>
      webhook_logs w' = webhook_logs w"
  using getGatewaySetting_spec[of key defaultValue w] by (auto simp: only_db_def)

lemma observe_any:
  "\<exists>out w2. observe w = (out, w2) \<and> only_db w w2 \<and>
      (if (\<exists>st. out = Ret st) \<and> db_handle w
       then \<exists>row. actionTaken row = ActNone \<and> webhook_logs w2 = webhook_logs w @ [row]
       else webhook_logs w2 = webhook_logs w)"
proof -
  obtain st w1 where chk: "checkWebhookStatus w = (Ret st, w1)" and st: "same_store w w1"
    and h1: "hook w1 = hook w" and c1: "calls w1 = calls w"
    using checkWebhookStatus_spec[of w] by blast
  have s1: "only_db w w1" "now w1 = now w" "webhook_logs w1 = webhook_logs w"
    "db_handle w1 = db_handle w"
    using st h1 c1 by (simp_all add: only_db_def os_same_def same_store_def db_later_def)
  obtain out w2 where ins: "insertWebhookStatusLog (first_row st (now w)) w1 = (out, w2)"
    and o2: "only_db w1 w2"
    and l2: "if out = Ret () \<and> db_handle w1
             then webhook_logs w2 = webhook_logs w1 @ [first_row st (now w)]
             else webhook_logs w2 = webhook_logs w1"
    using insertWebhookStatusLog_spec[of "first_row st (now w)" w1] by blast
  have o: "only_db w w2" using s1(1) o2 by (rule only_db_trans)
  have a: "actionTaken (first_row st (now w)) = ActNone" by (simp add: first_row_def)
  show ?thesis
    using ins o l2 s1 a
    by (cases out) (auto simp: observe_eq[OF chk s1(2)])
qed

lemma rate_check_any:
  "\<exists>out w'. rate_check st w = (out, w') \<and> quiet_frame w w' \<and>
      ((\<exists>s. out = Ret (Some s)) \<and> webhook_logs w' = webhook_logs w \<and> calls w' = calls w \<and>
         alerts w' = alerts w \<or>
       (\<forall>s. out \<noteq> Ret (Some s)) \<and> (\<exists>n. alerts w' = alerts w @ [WebhookKeepsFailing n]) \<and>
         calls w' = calls w @ [CallNotify] \<and>
         (webhook_logs w' = webhook_logs w \<or>
          db_handle w \<and> (\<exists>row. actionTaken row = ActAlert \<and>
                                 webhook_logs w' = webhook_logs w @ [row])))"
proof -
  obtain n wa where cnt: "getRecentRestartAttempts 5 w = (Ret n, wa)" and oa: "only_db w wa"
    and la: "webhook_logs wa = webhook_logs w"
    using getRecentRestartAttempts_spec[of w] by blast
  obtain v wb where rd: "getGatewaySetting ''max_restart_attempts'' (Some ''3'') wa = (Ret v, wb)"
    and ob: "only_db wa wb" and lb: "webhook_logs wb = webhook_logs wa"
    using setting_read_spec[of "''max_restart_attempts''" "Some ''3''" wa] by blast
  have o: "only_db w wb" using oa ob by (rule only_db_trans)
  have l: "webhook_logs wb = webhook_logs w" using la lb by simp
  show ?thesis
  proof (cases "ge_num n (parseInt (str_or v ''3''))")
    case False
    then show ?thesis
      using cnt rd o l only_db_quiet[OF o]
      by (simp add: rate_check_def io_defs only_db_def)
  next
    case True
    define wc where "wc = wb\<lparr>calls := calls wb @ [CallNotify], alerts := alerts wb @ [WebhookKeepsFailing n]\<rparr>"
    define row1 where "row1 =
        \<lparr>checkTimestamp = now wc, webhookUrl = str_or_null (status_url st),
         log_isActive = False, log_pendingUpdateCount = pendingUpdateCount st,
         log_lastErrorDate = num_or_null (lastErrorDate st),
         log_lastErrorMessage = Some ''Max restart attempts reached'',
         responseTimeMs = 0, actionTaken = ActAlert\<rparr>"
    obtain out wd where ins: "insertWebhookStatusLog row1 wc = (out, wd)"
      and od: "only_db wc wd"
      and ld: "if out = Ret () \<and> db_handle wc then webhook_logs wd = webhook_logs wc @ [row1]
               else webhook_logs wd = webhook_logs wc"
      using insertWebhookStatusLog_spec[of row1 wc] by blast
    have q: "quiet_frame w wd"
      using only_db_quiet[OF o] only_db_quiet[OF od]
      by (simp add: quiet_frame_def wc_def)
    have fd: "calls wd = calls w @ [CallNotify]" "alerts wd = alerts w @ [WebhookKeepsFailing n]"
      "db_handle wc = db_handle w" "webhook_logs wc = webhook_logs w"
      using o od l by (simp_all add: only_db_def os_same_def db_later_def wc_def)
    have a: "actionTaken row1 = ActAlert" by (simp add: row1_def)
    have step: "rate_check st w =
        (case insertWebhookStatusLog row1 wc of
           (Ret u, w') \<Rightarrow> (Ret None, w') | (Throw e, w') \<Rightarrow> (Throw e, w'))"
      using True cnt rd
      by (simp add: rate_check_def io_defs notifyOwner_def entered_def date_now_def wc_def row1_def
            split: prod.splits outcome.splits)
    show ?thesis
      unfolding step using ins q fd ld a
      by (cases out) auto
  qed
qed

lemma decide_any:
  "\<exists>out w2 rows. decide w = (out, w2) \<and> quiet_frame w w2 \<and>
      webhook_logs w2 = webhook_logs w @ rows \<and>
      (if \<exists>s. out = Ret (Some s)
       then (if db_handle w then map actionTaken rows = [ActNone] else rows = []) \<and>
            calls w2 = calls w \<and> alerts w2 = alerts w \<and> auto_restart_read w = Some ''true''
       else map actionTaken rows \<in> {[], [ActNone], [ActNone, ActAlert]} \<and>
            (auto_restart_read w \<noteq> Some ''true'' \<longrightarrow> calls w2 = calls w \<and> alerts w2 = alerts w))"
proof -
  obtain o1 w1 where ob: "observe w = (o1, w1)" and f1: "only_db w w1"
    and l1: "if (\<exists>st. o1 = Ret st) \<and> db_handle w
             then \<exists>row. actionTaken row = ActNone \<and> webhook_logs w1 = webhook_logs w @ [row]
             else webhook_logs w1 = webhook_logs w"
    using observe_any[of w] by blast
  have q1: "quiet_frame w w1" "calls w1 = calls w" "alerts w1 = alerts w"
    "db_handle w1 = db_handle w"
    using f1 only_db_quiet[OF f1] by (simp_all add: only_db_def os_same_def db_later_def)
  show ?thesis
  proof (cases o1)
    case (Throw e)
    then show ?thesis
      using ob q1 l1 by (simp add: decide_def io_defs)
  next
    case (Ret st)
    obtain rows1 where r1: "webhook_logs w1 = webhook_logs w @ rows1"
      "if db_handle w then map actionTaken rows1 = [ActNone] else rows1 = []"
      using l1 Ret by (cases "db_handle w") auto
    show ?thesis
    proof (cases "isActive st")
      case True
      then show ?thesis
        using ob Ret q1 r1 by (auto simp: decide_def io_defs)
    next
      case False
      obtain v w2 where rd: "getGatewaySetting ''auto_restart_enabled'' (Some ''true'') w1 = (Ret v, w2)"
        and f2: "only_db w1 w2" and l2: "webhook_logs w2 = webhook_logs w1"
        using setting_read_spec[of "''auto_restart_enabled''" "Some ''true''" w1] by blast
      have rdv: "auto_restart_read w = v"
        using ob Ret rd by (simp add: auto_restart_read_def)
      have f02: "only_db w w2" using f1 f2 by (rule only_db_trans)
      have q2: "quiet_frame w w2" "calls w2 = calls w" "alerts w2 = alerts w"
        "db_handle w2 = db_handle w"
        using f02 only_db_quiet[OF f02] by (simp_all add: only_db_def os_same_def db_later_def)
      show ?thesis
      proof (cases "v = Some ''true''")
        case no: False
        then show ?thesis
          using False ob Ret rd q2 r1 l2 rdv by (auto simp: decide_def io_defs)
      next
        case yes: True
        obtain o3 w3 where rc: "rate_check st w2 = (o3, w3)" and q3: "quiet_frame w2 w3"
          and alt: "(\<exists>s. o3 = Ret (Some s)) \<and> webhook_logs w3 = webhook_logs w2 \<and>
                      calls w3 = calls w2 \<and> alerts w3 = alerts w2 \<or>
                    (\<forall>s. o3 \<noteq> Ret (Some s)) \<and> (\<exists>n. alerts w3 = alerts w2 @ [WebhookKeepsFailing n]) \<and>
                      calls w3 = calls w2 @ [CallNotify] \<and>
                      (webhook_logs w3 = webhook_logs w2 \<or>
                       db_handle w2 \<and> (\<exists>row. actionTaken row = ActAlert \<and>
                                  webhook_logs w3 = webhook_logs w2 @ [row]))"
          using rate_check_any[of st w2] by blast
        have run: "decide w = (o3, w3)"
          using False yes ob Ret rd rc by (simp add: decide_def io_defs)
        have q03: "quiet_frame w w3" using q2(1) q3 by (simp add: quiet_frame_def)
        show ?thesis
          unfolding run using q03 alt q2 r1 l2 rdv yes
          by (cases "db_handle w") auto
      qed
    qed
  qed
qed

lemma cycle_any:
  "\<exists>w' rows. checkAndRestart w = (Ret (), w') \<and> webhook_logs w' = webhook_logs w @ rows \<and>
      db_handle w' = db_handle w \<and>
      map actionTaken rows \<in> {[], [ActNone], [ActNone, ActAlert], [ActNone, ActRestart]} \<and>
      (\<not> db_handle w \<longrightarrow> rows = []) \<and>
      (auto_restart_read w \<noteq> Some ''true'' \<longrightarrow>
         quiet_frame w w' \<and> calls w' = calls w \<and> alerts w' = alerts w)"
proof -
  obtain out w2 rows where de: "decide w = (out, w2)" and q: "quiet_frame w w2"
    and l: "webhook_logs w2 = webhook_logs w @ rows"
    and sh: "if \<exists>s. out = Ret (Some s)
       then (if db_handle w then map actionTaken rows = [ActNone] else rows = []) \<and>
            calls w2 = calls w \<and> alerts w2 = alerts w \<and> auto_restart_read w = Some ''true''
       else map actionTaken rows \<in> {[], [ActNone], [ActNone, ActAlert]} \<and>
            (auto_restart_read w \<noteq> Some ''true'' \<longrightarrow> calls w2 = calls w \<and> alerts w2 = alerts w)"
    using decide_any[of w] by blast
  have h2: "db_handle w2 = db_handle w" using q by (simp add: quiet_frame_def)
  show ?thesis
  proof (cases "\<exists>s. out = Ret (Some s)")
    case False
    then have run: "checkAndRestart w = (Ret (), w2)"
      using de by (cases out) (auto simp: checkAndRestart_unfold split: option.splits)
    have "\<not> db_handle w \<longrightarrow> rows = []"
    proof
      assume nh: "\<not> db_handle w"
      obtain o1 w1 where ob: "observe w = (o1, w1)" and f1: "only_db w w1"
        and l1: "webhook_logs w1 = webhook_logs w"
        using observe_any[of w] nh by auto
      have "webhook_logs w2 = webhook_logs w"
      proof (cases o1)
        case (Throw e)
        then show ?thesis using ob de l1 by (simp add: decide_def io_defs)
      next
        case (Ret st)
        show ?thesis
        proof (cases "isActive st")
          case True
          then show ?thesis using ob Ret de l1 by (simp add: decide_def io_defs)
        next
          case na: False
          obtain v wa where rd: "getGatewaySetting ''auto_restart_enabled'' (Some ''true'') w1 = (Ret v, wa)"
            and fa: "only_db w1 wa" and la: "webhook_logs wa = webhook_logs w1"
            using setting_read_spec[of "''auto_restart_enabled''" "Some ''true''" w1] by blast
          have ha: "\<not> db_handle wa"
            using nh only_db_handle[OF f1] only_db_handle[OF fa] by simp
          obtain o3 w3 where rc: "rate_check st wa = (o3, w3)"
            and alt: "webhook_logs w3 = webhook_logs wa"
            using rate_check_any[of st wa] ha by auto
          show ?thesis
            using na ob Ret de rd rc alt la l1
            by (cases "v = Some ''true''") (auto simp: decide_def io_defs)
        qed
      qed
      then show "rows = []" using l by simp
    qed
    then show ?thesis
      using run q l sh False h2 by auto
  next
    case True
    then obtain st where st: "out = Ret (Some st)" by blast
    obtain o' w' where ar: "attemptRestart st w2 = (o', w')"
      and h': "db_handle w' = db_handle w2"
      and l': "webhook_logs w' = webhook_logs w2 \<or>
               db_handle w2 \<and> (\<exists>row. actionTaken row = ActRestart \<and>
                              webhook_logs w' = webhook_logs w2 @ [row])"
      using attemptRestart_any[of st w2] by blast
    have run: "checkAndRestart w = (Ret (), w')"
      using de st ar by (simp add: checkAndRestart_unfold)
    show ?thesis
      unfolding run using True sh l l' h' h2
      by (cases "db_handle w") auto
  qed
qed

subsection \<open>The mode switch\<close>












subsection \<open>Runs of cycles\<close>


definition finish :: "webhook_status option outcome \<Rightarrow> world \<Rightarrow> world" where
  "finish d w = (case d of Ret (Some st) \<Rightarrow> snd (attemptRestart st w) | _ \<Rightarrow> w)"


lemma not_overlapped: "snd (checkAndRestart w) = (case decide w of (d, w1) \<Rightarrow> finish d w1)"
  by (simp add: checkAndRestart_unfold finish_def split: prod.splits outcome.splits option.splits)








section \<open>Example worlds\<close>

text \<open>
  A gateway process that exits 700 ms after a SIGTERM and listens on the default port, and
  worlds around it: one where it runs under pid 100 with the pid file missing, one where
  the pid file names a process that no longer exists. The database works and the pid
  file can be written unless said otherwise.
\<close>

definition ex_gateway :: proc where
  "ex_gateway = \<lparr>cmd_matches = True, may_signal = True, term_delay = Some 700, exit_at = None,
                  listening = Some (18789, 0), ps_out = Some (Some 120, Some (7 / 2), Some 2048)\<rparr>"

definition ex_hook :: WebhookInfo where
  "ex_hook = \<lparr>url = ''https://example.org/webhook'', has_custom_certificate = False,
               pending_update_count = 3, last_error_date = Some 1700000000,
               last_error_message = Some ''Connection refused''\<rparr>"

definition ex_world :: world where
  "ex_world = \<lparr>now = 1000000, pidFile = NoFile, disk_full = False, procs = [(100, ex_gateway)],
                spawn_script = [Some (200, ex_gateway)], db_handle = True, db_script = [],
                settings = Map.empty,
                bot_token = Some ''token'', hook = ex_hook, api_script = [ApiOk, ApiOk, ApiOk],
                webhook_logs = [], restart_logs = [], alerts = [], calls = []\<rparr>"

definition ex_stale :: world where
  "ex_stale = ex_world\<lparr>pidFile := Content (Some 4711), procs := []\<rparr>"

text \<open>Worlds in which the gateway process may not be signalled: with its pid recorded,
  with the pid file missing, and with a pid file that names a process long gone.\<close>

definition ex_blocked :: world where
  "ex_blocked = ex_world\<lparr>pidFile := Content (Some 100),
                           procs := [(100, ex_gateway\<lparr>may_signal := False\<rparr>)]\<rparr>"

definition ex_unsignalable :: world where
  "ex_unsignalable = ex_world\<lparr>procs := [(100, ex_gateway\<lparr>may_signal := False\<rparr>)]\<rparr>"

definition ex_stale_beside_blocked :: world where
  "ex_stale_beside_blocked = ex_unsignalable\<lparr>pidFile := Content (Some 4711)\<rparr>"

text \<open>A stale pid file beside a running gateway; a disk that is full.\<close>

definition ex_stale_beside_live :: world where
  "ex_stale_beside_live = ex_world\<lparr>pidFile := Content (Some 4711)\<rparr>"


text \<open>Worlds with three restart attempts in the last five minutes, with and without
  the automatic restart.\<close>

definition ex_attempt :: GatewayRestartLog where
  "ex_attempt = \<lparr>triggerType = Manual, triggerUserId = Some ''admin'',
                  reason = ''Manual restart from dashboard'', log_oldPid = Some 100,
                  log_newPid = None, log_success = False,
                  errorMessage = Some ''Gateway failed to start within timeout period'',
                  durationMs = 43000, createdAt = 940\<rparr>"

definition ex_rate_limited :: world where
  "ex_rate_limited = ex_world\<lparr>restart_logs := [ex_attempt, ex_attempt, ex_attempt]\<rparr>"

definition ex_disabled :: world where
  "ex_disabled = ex_rate_limited\<lparr>settings := [''auto_restart_enabled'' \<mapsto> ''false'']\<rparr>"

lemma parseInt_3: "parseInt ''3'' = Some 3"
  by (simp add: parseInt_def is_space_def is_digit_def digit_val_def)

lemma parseInt_1: "parseInt ''1'' = Some 1"
  by (simp add: parseInt_def is_space_def is_digit_def digit_val_def)

lemma ex_world_ok: "db_ok (ex_world\<lparr>restart_logs := l\<rparr>)" "db_ok ex_world"
  by (simp_all add: db_ok_def ex_world_def)

lemma ex_world_inactive: "\<not> seen_active (ex_world\<lparr>restart_logs := l\<rparr>)"
  by (simp add: seen_active_def checkWebhookStatus_def getBotToken_eq token_read_def
        token_world_def query_fails_def after_query_def io_defs
        fetch_getWebhookInfo_def fetch_def falsy_def ex_world_def ex_hook_def str_or_null_def)

lemma ex_rate_limited_facts:
  "\<not> seen_active ex_rate_limited" "auto_restart_enabled ex_rate_limited"
  "recent_attempts ex_rate_limited = 3" "max_attempts ex_rate_limited = Some 3"
  "webhook_logs ex_rate_limited = []" "calls ex_rate_limited = []" "alerts ex_rate_limited = []"
  "db_ok ex_rate_limited"
  using ex_world_inactive ex_world_ok
  by (simp_all add: ex_rate_limited_def auto_restart_enabled_def recent_attempts_def counted_def
        max_attempts_def parseInt_3 ex_world_def ex_attempt_def)






text \<open>Time passes between two cycles (\<open>tick\<close>: one minute); histories with two and three
  manual restarts; no database handle; a clock that shows 999 ms past the second; a first
  insert that fails (the second query of the cycle, after the one for the bot token); a
  count query that fails (the fifth query of a first cycle, the 24th query of a run, which
  is the count of its fourth cycle); \<open>max_restart_attempts\<close> set to 1.\<close>

definition later :: "int \<Rightarrow> world \<Rightarrow> world" where
  "later d w = w\<lparr>now := now w + d\<rparr>"

definition tick :: "world \<Rightarrow> world" where
  "tick = later 60000"


definition ex_blocked_no_db :: world where
  "ex_blocked_no_db = ex_blocked\<lparr>db_handle := False\<rparr>"



definition ex_insert_fails :: world where
  "ex_insert_fails = ex_blocked\<lparr>db_script := [DbOk, DbError]\<rparr>"






lemmas eval_defs = checkAndRestart_def attemptRestart_def restart_def io_defs date_now_def
  insertWebhookStatusLog_eq insertGatewayRestartLog_eq getRecentRestartAttempts_eq
  getGatewaySetting_def getDb_def select_setting_eq write_setting_eq query_fails_def
  after_query_def counted_def notifyOwner_def entered_def checkWebhookStatus_def getBotToken_eq
  token_read_def token_world_def
  fetch_getWebhookInfo_def fetch_def getCurrentPid_eq stop_unfold resolved_pid_def healed_def
  find_proc_def alive_at_def falsy_def str_or_null_def num_or_null_def str_or_def ge_num_def
  parseInt_3 parseInt_1 Let_def truthy_def

lemmas ex_defs = tick_def later_def ex_blocked_def ex_world_def ex_gateway_def ex_hook_def
  ex_attempt_def













text \<open>
  A cycle that restarts the gateway: in \<open>ex_world\<close> the webhook is inactive, the history is
  empty, the old process (pid 100) exits on SIGTERM and the new one (pid 200) listens at once.
\<close>

lemma ex_restart_cycle:
  "map actionTaken (webhook_logs (snd (checkAndRestart ex_world))) = [ActNone, ActRestart]"
  "map log_success (restart_logs (snd (checkAndRestart ex_world))) = [True]"
  "calls (snd (checkAndRestart ex_world)) = [CallRestart, CallStop, CallStart, CallResetWebhook]"
  "find_proc (snd (checkAndRestart ex_world)) 100 = None"
  "signalable (snd (checkAndRestart ex_world)) 200"
  "pidFile (snd (checkAndRestart ex_world)) = Content (Some 200)"
  by (simp_all add: eval_defs ex_defs start_def healthCheck_def waitForShutdown_def
        waitForStartup_def waitForShutdown_loop.simps waitForStartup_loop.simps
        isProcessRunning_eq signalable_def isPortListening_def clearPidFile_eq sleep_def
        kill_eq signalled_def deliver_def gateway_pids_def spawn_def savePid_def
        resetWebhook_def SHUTDOWN_TIMEOUT_def STARTUP_TIMEOUT_def DEFAULT_PORT_def
        stop_tail_def or_zero_def)

section \<open>The claims\<close>

subsection \<open>C5: stop is idempotent\<close>

definition no_recorded_pid :: "world \<Rightarrow> bool" where
  "no_recorded_pid w \<longleftrightarrow> pidFile w = NoFile \<and> gateway_pids w = []"

definition recorded_pid_dead :: "world \<Rightarrow> bool" where
  "recorded_pid_dead w \<longleftrightarrow> (\<exists>p. pidFile w = Content (Some p) \<and> find_proc w p = None)"

lemma stop_when_idle:
  assumes "no_recorded_pid w \<or> recorded_pid_dead w"
  shows "\<exists>r w'. stop w = (Ret r, w') \<and> success r \<and> procs w' = procs w \<and> now w' = now w \<and>
           spawn_script w' = spawn_script w \<and> calls w' = calls w @ [CallStop] \<and>
           (pidFile w' = NoFile \<or> pidFile w' = pidFile w) \<and>
           (\<forall>p. pidFile w = Content (Some p) \<longrightarrow> find_proc w' p = None)"
  using assms
proof
  assume "no_recorded_pid w"
  then show ?thesis
    by (simp add: stop_unfold no_recorded_pid_def resolved_pid_def healed_def Let_def)
next
  assume "recorded_pid_dead w"
  then obtain p where p: "pidFile w = Content (Some p)" "find_proc w p = None"
    by (auto simp: recorded_pid_dead_def)
  then show ?thesis
    by (auto simp: stop_unfold resolved_pid_def healed_def Let_def)
qed

text \<open>
  C5 says that \<open>stop\<close>, called with a recorded pid whose process is dead, leaves no live
  process behind, and that repeated calls are safe. \<open>stop\<close> looks at the recorded pid only:
  with a stale pid file beside a running gateway it returns success and the gateway
  keeps running. And when that gateway may not be signalled, the first \<open>stop\<close> clears the
  stale file and succeeds, and the second one, which now finds the gateway by the
  scan, fails.
\<close>

theorem stop_leaves_unrecorded_counterexample:
  "recorded_pid_dead ex_stale_beside_live \<and>
   fst (stop ex_stale_beside_live) =
     Ret \<lparr>success = True, message = ''Gateway process was not running''\<rparr> \<and>
   signalable (snd (stop ex_stale_beside_live)) 100 \<and>
   recorded_pid_dead ex_stale_beside_blocked \<and>
   fst (stop ex_stale_beside_blocked) =
     Ret \<lparr>success = True, message = ''Gateway process was not running''\<rparr> \<and>
   fst (stop (snd (stop ex_stale_beside_blocked))) =
     Ret \<lparr>success = False, message = ''Failed to stop Gateway: Error: kill EPERM''\<rparr>"
  by (simp add: recorded_pid_dead_def stop_unfold resolved_pid_def healed_def find_proc_def
        alive_at_def signalable_def gateway_pids_def Let_def
        ex_stale_beside_live_def ex_stale_beside_blocked_def ex_unsignalable_def ex_world_def
        ex_gateway_def)

text \<open>
  C5, amended. Whenever \<open>stop\<close> is called with no recorded pid (the pid file is absent and
  the process scan finds nothing) or with a recorded pid whose process is dead, it returns
  success, signals nothing (the process table and the clock are as before) and the
  recorded process is not alive afterwards. When no gateway process is alive at all, the
  state after the call is again of this kind, and a second \<open>stop\<close> succeeds in the same way.
  And a second \<open>stop\<close> succeeds whenever every live gateway process that the scan finds
  may be signalled.
\<close>

theorem stop_idempotent:
  assumes "no_recorded_pid w \<or> recorded_pid_dead w"
  shows "\<exists>r w'. stop w = (Ret r, w') \<and> success r \<and>
           procs w' = procs w \<and> now w' = now w \<and> spawn_script w' = spawn_script w \<and>
           (\<forall>p. pidFile w = Content (Some p) \<longrightarrow> find_proc w' p = None) \<and>
           (gateway_pids w = [] \<longrightarrow>
              gateway_pids w' = [] \<and> (no_recorded_pid w' \<or> recorded_pid_dead w') \<and>
              (\<exists>r2 w2. stop w' = (Ret r2, w2) \<and> success r2 \<and>
                        procs w2 = procs w \<and> now w2 = now w \<and> gateway_pids w2 = [])) \<and>
           ((\<forall>p\<in>set (gateway_pids w). signalable w p) \<longrightarrow>
              (\<exists>r2 w2. stop w' = (Ret r2, w2) \<and> success r2))"
proof -
  from stop_when_idle[OF assms] obtain r w' where 1:
    "stop w = (Ret r, w')" "success r" "procs w' = procs w" "now w' = now w"
    "spawn_script w' = spawn_script w" "pidFile w' = NoFile \<or> pidFile w' = pidFile w"
    "\<forall>p. pidFile w = Content (Some p) \<longrightarrow> find_proc w' p = None"
    by blast
  have same: "gateway_pids w' = gateway_pids w" "find_proc w' = find_proc w"
    using 1(3,4) by (simp_all add: gateway_pids_def find_proc_def fun_eq_iff cong: option.case_cong)
  have idle': "no_recorded_pid w' \<or> recorded_pid_dead w'" if "gateway_pids w = []"
    using assms 1(6) that same
    by (auto simp: no_recorded_pid_def recorded_pid_dead_def)
  have again: "\<exists>r2 w2. stop w' = (Ret r2, w2) \<and> success r2 \<and>
                 procs w2 = procs w \<and> now w2 = now w \<and> gateway_pids w2 = []"
    if "gateway_pids w = []"
  proof -
    from stop_when_idle[OF idle'[OF that]] obtain r2 w2 where 2:
      "stop w' = (Ret r2, w2)" "success r2" "procs w2 = procs w'" "now w2 = now w'"
      by blast
    have "gateway_pids w2 = gateway_pids w'"
      using 2(3,4) by (simp add: gateway_pids_def)
    with 2 1(3,4) same that show ?thesis by simp
  qed
  have free: "\<exists>r2 w2. stop w' = (Ret r2, w2) \<and> success r2"
    if sig: "\<forall>p\<in>set (gateway_pids w). signalable w p"
  proof -
    have "\<not> blocked w'"
    proof
      assume "blocked w'"
      then obtain p pr where b: "resolved_pid w' = Some p" "p \<noteq> 0" "find_proc w' p = Some pr"
        "\<not> may_signal pr"
        by (auto simp: blocked_def)
      show False
      proof (cases "pidFile w'")
        case NoFile
        then have "gateway_pids w' \<noteq> []" "p = last (gateway_pids w')"
          using b(1) by (auto simp: resolved_pid_def split: if_splits)
        then have "p \<in> set (gateway_pids w)" using same(1) by (metis last_in_set)
        then have "signalable w p" using sig by simp
        then show False using b(3,4) same(2) by (simp add: signalable_def)
      next
        case (Content c)
        then have c: "pidFile w = Content (Some p)"
          using b(1) 1(6) by (auto simp: resolved_pid_def)
        then have "find_proc w' p = None" using 1(7) by simp
        then show False using b(3) by simp
      qed
    qed
    then show ?thesis using stop_spec[of w'] by blast
  qed
  show ?thesis
    using 1 same idle' again free by auto
qed

theorem stop_idempotent_witness:
  "recorded_pid_dead ex_stale \<and> gateway_pids ex_stale = [] \<and>
   (\<exists>r w'. stop ex_stale = (Ret r, w') \<and> success r \<and> procs w' = procs ex_stale \<and>
            find_proc w' 4711 = None \<and>
            (\<exists>r2 w2. stop w' = (Ret r2, w2) \<and> success r2)) \<and>
   recorded_pid_dead ex_stale_beside_live \<and> gateway_pids ex_stale_beside_live = [100] \<and>
   signalable ex_stale_beside_live 100 \<and>
   (\<exists>r w'. stop ex_stale_beside_live = (Ret r, w') \<and> success r \<and>
            (\<exists>r2 w2. stop w' = (Ret r2, w2) \<and> success r2))"
proof -
  have dead: "recorded_pid_dead ex_stale" "recorded_pid_dead ex_stale_beside_live"
    by (simp_all add: recorded_pid_dead_def ex_stale_def ex_stale_beside_live_def ex_world_def
          find_proc_def)
  have none: "gateway_pids ex_stale = []" "pidFile ex_stale = Content (Some 4711)"
    by (simp_all add: gateway_pids_def ex_stale_def ex_world_def)
  have live: "gateway_pids ex_stale_beside_live = [100]" "signalable ex_stale_beside_live 100"
    by (simp_all add: gateway_pids_def signalable_def find_proc_def alive_at_def
          ex_stale_beside_live_def ex_world_def ex_gateway_def)
  have 1: "\<exists>r w'. stop ex_stale = (Ret r, w') \<and> success r \<and> procs w' = procs ex_stale \<and>
            find_proc w' 4711 = None \<and> (\<exists>r2 w2. stop w' = (Ret r2, w2) \<and> success r2)"
    using stop_idempotent[of ex_stale] dead(1) none by fastforce
  have 2: "\<exists>r w'. stop ex_stale_beside_live = (Ret r, w') \<and> success r \<and>
            (\<exists>r2 w2. stop w' = (Ret r2, w2) \<and> success r2)"
    using stop_idempotent[of ex_stale_beside_live] dead(2) live by fastforce
  show ?thesis
    using dead none(1) live 1 2 by simp
qed

subsection \<open>C7: the status heals itself\<close>




subsection \<open>C10: running exactly when there is a pid\<close>

text \<open>
  C10. \<open>getStatus\<close> always returns a status (it never throws), and the status it returns
  is \<open>running\<close> if and only if its pid is not null; a \<open>running\<close> status carries a pid
  other than 0, and in the \<open>stopped\<close> and \<open>error\<close> cases the pid is null and uptime,
  cpuUsage and memoryUsage are zero.
\<close>

theorem getStatus_running_iff_pid:
  "\<exists>g w'. getStatus w = (Ret g, w') \<and>
     (status g = Running \<longleftrightarrow> pid g \<noteq> None) \<and>
     (status g = Running \<longrightarrow> pid g \<noteq> Some 0) \<and>
     (status g \<noteq> Running \<longrightarrow>
        pid g = None \<and> uptime g = 0 \<and> cpuUsage g = 0 \<and> memoryUsage g = 0)"
  by (auto simp: getStatus_def io_defs getCurrentPid_eq isProcessRunning_eq clearPidFile_eq
        getProcessMetrics_eq not_running_def falsy_def
        split: pid_file.splits option.splits prod.splits)

theorem getStatus_running_iff_pid_witness:
  "(\<exists>g w'. getStatus ex_world = (Ret g, w') \<and> status g = Running \<and> pid g = Some 100 \<and>
            pid g \<noteq> Some 0) \<and>
   (\<exists>g w'. getStatus ex_stale = (Ret g, w') \<and> status g \<noteq> Running \<and> pid g = None \<and>
            uptime g = 0 \<and> cpuUsage g = 0 \<and> memoryUsage g = 0)"
proof -
  have a: "\<exists>w'. getStatus ex_world =
             (Ret \<lparr>status = Running, pid = Some 100, port = 18789, uptime = 120,
                    cpuUsage = 7 / 2, memoryUsage = 2, lastRestart = None\<rparr>, w')"
    by (simp add: getStatus_def io_defs getCurrentPid_eq isProcessRunning_eq
          getProcessMetrics_eq metrics_of_def falsy_def or_zero_def signalable_def find_proc_def
          gateway_pids_def alive_at_def ex_world_def ex_gateway_def DEFAULT_PORT_def)
  have b: "\<exists>w'. getStatus ex_stale = (Ret (not_running Stopped), w')"
    by (simp add: getStatus_def io_defs getCurrentPid_eq isProcessRunning_eq clearPidFile_eq
          falsy_def or_zero_def signalable_def find_proc_def ex_stale_def ex_world_def)
  show ?thesis
    using getStatus_running_iff_pid[of ex_world] getStatus_running_iff_pid[of ex_stale] a b
    by (auto simp: not_running_def)
qed

subsection \<open>C3: restart never throws\<close>

text \<open>
  C3. \<open>restart\<close> never throws: from every state it returns a \<open>RestartResult\<close> (with
  \<open>oldPid\<close>, \<open>newPid\<close>, \<open>duration\<close>, \<open>success\<close>, \<open>message\<close> and \<open>error\<close>), whose duration
  is not negative and whose message is not empty on failure. Whenever the stop phase fails
  (\<open>stop\<close>, run from the state in which \<open>restart\<close> is called, reports failure; resolving
  the pid first, as \<open>restart\<close> does, does not change that verdict), \<open>restart\<close> returns a
  failure that names the stop phase and carries the message of \<open>stop\<close>, and \<open>start\<close> is
  not invoked: the only operations entered are \<open>restart\<close> and \<open>stop\<close>, nothing is spawned
  and the process table is as before.
\<close>

theorem restart_never_throws:
  "\<exists>r w'. restart reason_arg w = (Ret r, w') \<and> 0 \<le> duration r \<and>
      (\<not> success r \<longrightarrow> message r \<noteq> []) \<and>
      (\<forall>s ws. stop w = (Ret s, ws) \<and> \<not> success s \<longrightarrow>
         \<not> success r \<and> message r = ''Failed to stop old process'' \<and>
         error r = Some (message s) \<and> newPid r = None \<and>
         calls w' = calls w @ [CallRestart, CallStop] \<and>
         procs w' = procs w \<and> spawn_script w' = spawn_script w)"
proof -
  obtain r w' where 1: "restart reason_arg w = (Ret r, w')" "0 \<le> duration r"
    "\<not> success r \<longrightarrow> message r \<noteq> []"
    and 2: "blocked w \<longrightarrow>
             \<not> success r \<and> message r = ''Failed to stop old process'' \<and>
             (\<forall>s ws. stop w = (Ret s, ws) \<longrightarrow> error r = Some (message s)) \<and>
             oldPid r = resolved_pid w \<and> newPid r = None \<and>
             calls w' = calls w @ [CallRestart, CallStop] \<and> procs w' = procs w \<and>
             spawn_script w' = spawn_script w \<and> now w' = now w"
    using restart_cases[of reason_arg w] by blast
  have "blocked w" if "stop w = (Ret s, ws)" "\<not> success s" for s ws
    using that stop_fails_iff[of w] by blast
  then show ?thesis using 1 2 by blast
qed

theorem restart_never_throws_witness:
  "fst (stop ex_blocked) = Ret \<lparr>success = False, message = ''Failed to stop Gateway: Error: kill EPERM''\<rparr> \<and>
   (\<exists>r w'. restart None ex_blocked = (Ret r, w') \<and> \<not> success r \<and>
      message r = ''Failed to stop old process'' \<and>
      error r = Some ''Failed to stop Gateway: Error: kill EPERM'' \<and>
      calls w' = [CallRestart, CallStop])"
proof -
  have s: "stop ex_blocked = (Ret \<lparr>success = False, message = ''Failed to stop Gateway: Error: kill EPERM''\<rparr>,
             ex_blocked\<lparr>calls := [CallStop]\<rparr>)"
    by (simp add: stop_unfold resolved_pid_def healed_def find_proc_def alive_at_def Let_def
          ex_blocked_def ex_world_def ex_gateway_def)
  have c: "calls ex_blocked = []" by (simp add: ex_blocked_def ex_world_def)
  show ?thesis
    using restart_never_throws[of None ex_blocked] s c by fastforce
qed

subsection \<open>C4: the activity test\<close>

text \<open>
  C4. Whenever the provider answers the query, the subscription is judged active if and
  only if its URL is not empty and (there is no recorded last-error date or the pending
  count is zero); in particular a non-empty URL with a last-error date and a nonzero
  pending count is judged inactive. A last-error date is a Unix time that the provider
  sends once an error has occurred; the source tests \<^verbatim>\<open>!info.last_error_date\<close>, so a
  date of 0 counts as no date, like an absent one. When the provider does not answer (no
  bot token, a failed call), the subscription is judged inactive and no URL is reported.
\<close>

theorem webhook_activity_predicate:
  "\<exists>st w'. checkWebhookStatus w = (Ret st, w') \<and>
     (answered w \<longrightarrow>
        (isActive st \<longleftrightarrow>
           url (hook w) \<noteq> [] \<and>
           (last_error_date (hook w) = None \<or> last_error_date (hook w) = Some 0 \<or>
            pending_update_count (hook w) = 0))) \<and>
     (answered w \<and> last_error_date (hook w) \<noteq> Some 0 \<longrightarrow>
        (isActive st \<longleftrightarrow>
           url (hook w) \<noteq> [] \<and>
           (last_error_date (hook w) = None \<or> pending_update_count (hook w) = 0))) \<and>
     (answered w \<and> url (hook w) \<noteq> [] \<and> last_error_date (hook w) \<noteq> None \<and>
      last_error_date (hook w) \<noteq> Some 0 \<and> pending_update_count (hook w) \<noteq> 0 \<longrightarrow>
        \<not> isActive st) \<and>
     (\<not> answered w \<longrightarrow> \<not> isActive st \<and> status_url st = None)"
proof -
  obtain st w1 where 1: "checkWebhookStatus w = (Ret st, w1)"
    and 2: "answered w \<longrightarrow>
          st = \<lparr>isActive = (url (hook w) \<noteq> [] \<and>
                             (falsy (last_error_date (hook w)) \<or> pending_update_count (hook w) = 0)),
                status_url = (if url (hook w) = [] then None else Some (url (hook w))),
                pendingUpdateCount = pending_update_count (hook w),
                lastErrorDate = last_error_date (hook w),
                lastErrorMessage = last_error_message (hook w)\<rparr>"
    and 3: "\<not> answered w \<longrightarrow>
          \<not> isActive st \<and> status_url st = None \<and> pendingUpdateCount st = 0 \<and>
          lastErrorDate st = None"
    using checkWebhookStatus_spec[of w] by blast
  have f: "falsy x \<longleftrightarrow> x = None \<or> x = Some 0" for x
    by (cases x) (simp_all add: falsy_def)
  show ?thesis
    using 1 2 3 by (auto simp: f)
qed

theorem webhook_activity_predicate_witness:
  "answered ex_world \<and> url (hook ex_world) \<noteq> [] \<and>
   last_error_date (hook ex_world) = Some 1700000000 \<and> pending_update_count (hook ex_world) = 3 \<and>
   (\<exists>st w'. checkWebhookStatus ex_world = (Ret st, w') \<and> \<not> isActive st)"
proof -
  have a: "answered ex_world" "url (hook ex_world) \<noteq> []"
    "last_error_date (hook ex_world) = Some 1700000000" "pending_update_count (hook ex_world) = 3"
    by (simp_all add: answered_def token_read_def query_fails_def str_or_null_def
          ex_world_def ex_hook_def)
  show ?thesis
    using webhook_activity_predicate[of ex_world] a by auto
qed

subsection \<open>C6: the rows a cycle appends to the webhook log\<close>

text \<open>
  C6 says that every cycle appends exactly one WebhookCheckRecord. A cycle that restarts
  the gateway successfully appends two: the row with \<open>actionTaken = none\<close> written right
  after the check, and a second row with \<open>actionTaken = restart\<close>. A rate-limited cycle
  appends two as well, the second with \<open>actionTaken = alert\<close>. And a cycle appends no
  row at all when the database has no handle (the inserts are skipped) or when the first
  insert fails (the cycle ends there).
\<close>

theorem two_records_counterexample:
  "webhook_logs ex_world = [] \<and>
   map log_success (restart_logs (snd (checkAndRestart ex_world))) = [True] \<and>
   map actionTaken (webhook_logs (snd (checkAndRestart ex_world))) = [ActNone, ActRestart] \<and>
   webhook_logs ex_rate_limited = [] \<and>
   map actionTaken (webhook_logs (snd (checkAndRestart ex_rate_limited))) = [ActNone, ActAlert] \<and>
   webhook_logs (snd (checkAndRestart ex_blocked_no_db)) = [] \<and>
   webhook_logs (snd (checkAndRestart ex_insert_fails)) = []"
proof -
  have "ge_num (recent_attempts ex_rate_limited) (max_attempts ex_rate_limited)"
    by (simp add: ex_rate_limited_facts ge_num_def)
  from cycle_alert[OF ex_rate_limited_facts(8,1,2) this]
  have 1: "map actionTaken (webhook_logs (snd (checkAndRestart ex_rate_limited))) = [ActNone, ActAlert]"
    by (auto simp: ex_rate_limited_facts first_row_def)
  have 2: "webhook_logs (snd (checkAndRestart ex_blocked_no_db)) = []"
    "webhook_logs (snd (checkAndRestart ex_insert_fails)) = []"
    by (simp_all add: eval_defs ex_defs ex_blocked_no_db_def ex_insert_fails_def)
  show ?thesis
    using 1 2 by (simp add: ex_restart_cycle ex_rate_limited_facts) (simp add: ex_world_def)
qed

text \<open>
  C6, amended. Every cycle returns, and the rows it appends to the webhook log are none,
  one row with \<open>actionTaken = none\<close>, or that row followed by one with
  \<open>actionTaken = alert\<close> or \<open>actionTaken = restart\<close>; none when the database has no
  handle. When the database works, the cycle first appends the row with
  \<open>actionTaken = none\<close>. A rate-limited cycle (inactive webhook, automatic restart enabled,
  at least \<open>max_restart_attempts\<close> attempts in the last five minutes) then appends a second
  row with \<open>actionTaken = alert\<close>; a cycle whose restart succeeded appends a second row
  with \<open>actionTaken = restart\<close>; every other cycle appends the first row only.
\<close>

theorem cycle_appends_one_or_two_records:
  "\<exists>w' rows. checkAndRestart w = (Ret (), w') \<and> webhook_logs w' = webhook_logs w @ rows \<and>
     map actionTaken rows \<in> {[], [ActNone], [ActNone, ActAlert], [ActNone, ActRestart]} \<and>
     (\<not> db_handle w \<longrightarrow> rows = []) \<and>
     (db_ok w \<longrightarrow>
        (\<exists>st w1. checkWebhookStatus w = (Ret st, w1) \<and>
           actionTaken (first_row st (now w)) = ActNone \<and>
           (if \<not> seen_active w \<and> auto_restart_enabled w \<and>
               ge_num (recent_attempts w) (max_attempts w)
            then \<exists>row1. actionTaken row1 = ActAlert \<and> rows = [first_row st (now w), row1]
            else if (\<exists>rec. restart_logs w' = restart_logs w @ [rec] \<and> log_success rec)
            then \<exists>row1. actionTaken row1 = ActRestart \<and> rows = [first_row st (now w), row1]
            else rows = [first_row st (now w)])))"
proof -
  obtain w' rows where any: "checkAndRestart w = (Ret (), w')"
    "webhook_logs w' = webhook_logs w @ rows"
    "map actionTaken rows \<in> {[], [ActNone], [ActNone, ActAlert], [ActNone, ActRestart]}"
    "\<not> db_handle w \<longrightarrow> rows = []"
    using cycle_any[of w] by (elim exE conjE)
  have "\<exists>st w1. checkWebhookStatus w = (Ret st, w1) \<and>
           actionTaken (first_row st (now w)) = ActNone \<and>
           (if \<not> seen_active w \<and> auto_restart_enabled w \<and>
               ge_num (recent_attempts w) (max_attempts w)
            then \<exists>row1. actionTaken row1 = ActAlert \<and> rows = [first_row st (now w), row1]
            else if (\<exists>rec. restart_logs w' = restart_logs w @ [rec] \<and> log_success rec)
            then \<exists>row1. actionTaken row1 = ActRestart \<and> rows = [first_row st (now w), row1]
            else rows = [first_row st (now w)])"
    if ok: "db_ok w"
  proof -
    consider (quiet) "seen_active w \<or> \<not> auto_restart_enabled w"
      | (alert) "\<not> seen_active w" "auto_restart_enabled w"
          "ge_num (recent_attempts w) (max_attempts w)"
      | (restart) "\<not> seen_active w" "auto_restart_enabled w"
          "\<not> ge_num (recent_attempts w) (max_attempts w)"
      by blast
    then show ?thesis
    proof cases
      case quiet
      from cycle_quiet[OF ok quiet] obtain st w1 w2 where
        "checkWebhookStatus w = (Ret st, w1)" "checkAndRestart w = (Ret (), w2)"
        "webhook_logs w2 = webhook_logs w @ [first_row st (now w)]"
        "quiet_frame w w2"
        by blast
      with quiet any show ?thesis
        by (auto simp: first_row_def quiet_frame_def)
    next
      case alert
      from cycle_alert[OF ok alert] obtain st w1 w2 row1 where
        "checkWebhookStatus w = (Ret st, w1)" "checkAndRestart w = (Ret (), w2)"
        "actionTaken row1 = ActAlert"
        "webhook_logs w2 = webhook_logs w @ [first_row st (now w), row1]"
        by blast
      with alert any show ?thesis
        by (auto simp: first_row_def)
    next
      case restart
      from cycle_restart[OF ok restart] obtain st w1 w2 rec cs where
        "checkWebhookStatus w = (Ret st, w1)" "checkAndRestart w = (Ret (), w2)"
        "restart_logs w2 = restart_logs w @ [rec]"
        "if log_success rec
         then \<exists>row1. actionTaken row1 = ActRestart \<and>
                webhook_logs w2 = webhook_logs w @ [first_row st (now w), row1]
         else webhook_logs w2 = webhook_logs w @ [first_row st (now w)]"
        by blast
      with restart any show ?thesis
        by (cases "log_success rec") (auto simp: first_row_def)
    qed
  qed
  then have main: "db_ok w \<longrightarrow>
        (\<exists>st w1. checkWebhookStatus w = (Ret st, w1) \<and>
           actionTaken (first_row st (now w)) = ActNone \<and>
           (if \<not> seen_active w \<and> auto_restart_enabled w \<and>
               ge_num (recent_attempts w) (max_attempts w)
            then \<exists>row1. actionTaken row1 = ActAlert \<and> rows = [first_row st (now w), row1]
            else if (\<exists>rec. restart_logs w' = restart_logs w @ [rec] \<and> log_success rec)
            then \<exists>row1. actionTaken row1 = ActRestart \<and> rows = [first_row st (now w), row1]
            else rows = [first_row st (now w)]))"
    by (rule impI)
  show ?thesis
    by (intro exI[of _ w'] exI[of _ rows] conjI any main)
qed

theorem cycle_appends_one_or_two_records_witness:
  "db_ok ex_rate_limited \<and> \<not> seen_active ex_rate_limited \<and> auto_restart_enabled ex_rate_limited \<and>
   ge_num (recent_attempts ex_rate_limited) (max_attempts ex_rate_limited) \<and>
   (\<exists>w' row0 row1. checkAndRestart ex_rate_limited = (Ret (), w') \<and>
      actionTaken row0 = ActNone \<and> actionTaken row1 = ActAlert \<and>
      webhook_logs w' = webhook_logs ex_rate_limited @ [row0, row1])"
proof -
  have ge: "ge_num (recent_attempts ex_rate_limited) (max_attempts ex_rate_limited)"
    by (simp add: ex_rate_limited_facts ge_num_def)
  from cycle_appends_one_or_two_records[of ex_rate_limited]
  obtain w' rows st w1 row1 where
    "checkAndRestart ex_rate_limited = (Ret (), w')"
    "webhook_logs w' = webhook_logs ex_rate_limited @ rows"
    "actionTaken (first_row st (now ex_rate_limited)) = ActNone"
    "actionTaken row1 = ActAlert" "rows = [first_row st (now ex_rate_limited), row1]"
    using ge ex_rate_limited_facts(1,2,8) by auto
  then show ?thesis
    using ge ex_rate_limited_facts(1,2,8) by auto
qed

subsection \<open>C8: the automatic restart can be switched off\<close>

lemma auto_restart_read_ok:
  assumes "db_ok w"
  shows "auto_restart_read w =
           Some (case settings w ''auto_restart_enabled'' of None \<Rightarrow> ''true'' | Some v \<Rightarrow> v)"
proof -
  obtain st w1 where st: "same_store w w1" and ok1: "db_ok w1"
    and ob: "observe w = (Ret st, w1\<lparr>webhook_logs := webhook_logs w @ [first_row st (now w)]\<rparr>)"
    using observe_ok[OF assms] by blast
  have "settings w1 = settings w" using st by (simp add: same_store_def)
  then show ?thesis
    using ob ok1 by (simp add: auto_restart_read_def getGatewaySetting_ok split: option.splits)
qed

text \<open>
  C8. In every cycle in which the setting \<open>auto_restart_enabled\<close> resolves to a value
  other than \<open>true\<close> (the value that \<open>getGatewaySetting\<close> returns where the cycle reads
  it), whatever the webhook check finds and whatever the restart history holds, \<open>restart\<close>
  is not invoked and no corrective action is taken: no operation is entered, no alert is
  sent, no row is added to the restart log, and processes, pid file, provider
  subscription and clock are as before.
\<close>

theorem auto_restart_override_respected:
  assumes "auto_restart_read w = Some v" and "v \<noteq> ''true''"
  shows "\<exists>w'. checkAndRestart w = (Ret (), w') \<and> calls w' = calls w \<and>
           restart_logs w' = restart_logs w \<and> alerts w' = alerts w \<and>
           procs w' = procs w \<and> pidFile w' = pidFile w \<and> spawn_script w' = spawn_script w \<and>
           hook w' = hook w \<and> now w' = now w"
proof -
  have "auto_restart_read w \<noteq> Some ''true''" using assms by simp
  with cycle_any[of w] show ?thesis
    by (auto simp: quiet_frame_def)
qed

theorem auto_restart_override_respected_witness:
  "auto_restart_read ex_disabled = Some ''false'' \<and>
   settings ex_disabled ''auto_restart_enabled'' = Some ''false'' \<and> \<not> seen_active ex_disabled \<and>
   length (restart_logs ex_disabled) = 3 \<and>
   (\<exists>w'. checkAndRestart ex_disabled = (Ret (), w') \<and> calls w' = [] \<and>
          procs w' = procs ex_disabled \<and> alerts w' = [])"
proof -
  have a: "settings ex_disabled ''auto_restart_enabled'' = Some ''false''"
    "length (restart_logs ex_disabled) = 3" "calls ex_disabled = []" "alerts ex_disabled = []"
    "db_ok ex_disabled"
    by (simp_all add: ex_disabled_def ex_rate_limited_def ex_world_def db_ok_def)
  have r: "auto_restart_read ex_disabled = Some ''false''"
    using auto_restart_read_ok[OF a(5)] a(1) by simp
  have b: "\<not> seen_active ex_disabled"
    by (simp add: seen_active_def checkWebhookStatus_def getBotToken_eq token_read_def
          token_world_def query_fails_def after_query_def io_defs str_or_null_def
          fetch_getWebhookInfo_def fetch_def falsy_def ex_disabled_def ex_rate_limited_def
          ex_world_def ex_hook_def)
  have c: "''false'' \<noteq> ''true''" by simp
  show ?thesis
    using auto_restart_override_respected[OF r c] a b r by auto
qed

subsection \<open>C1: the two modes exclude each other\<close>





subsection \<open>C2: the rate limit holds\<close>




subsection \<open>C9: the rate limit counts every trigger\<close>




end
